theory Spec2Isabelle
  imports Complex_Main "HOL-Library.Multiset" "HOL-Library.Code_Target_Numeral"
begin

section \<open>JavaScript strings\<close>

text \<open>
  The program is \<^verbatim>\<open>js/app.js\<close>. Its strings are modelled as \<open>string\<close> (a list of
  8-bit characters) holding the UTF-8 bytes of the JavaScript string, so that ASCII text
  reads as itself and the one non-ASCII glyph the program draws (the bullet, U+2022) is
  three bytes. \<open>split\<close> on an ASCII separator, string equality and concatenation are
  the same on code units and on UTF-8 bytes. JavaScript's own white space (what
  \<^verbatim>\<open>trim\<close>, the \<^verbatim>\<open>\s\<close> of a regular expression and \<^verbatim>\<open>Number\<close> strip) is the list
  below: TAB, LF, VT, FF, CR, SP, and the UTF-8 forms of U+00A0, U+1680, U+2000..U+200A,
  U+2028, U+2029, U+202F, U+205F, U+3000 and U+FEFF.
\<close>

definition whitespace_seqs :: "string list" where
  "whitespace_seqs =
     [[CHR 0x09], [CHR 0x0A], [CHR 0x0B], [CHR 0x0C], [CHR 0x0D], [CHR 0x20],
      [CHR 0xC2, CHR 0xA0],
      [CHR 0xE1, CHR 0x9A, CHR 0x80],
      [CHR 0xE2, CHR 0x80, CHR 0x80], [CHR 0xE2, CHR 0x80, CHR 0x81],
      [CHR 0xE2, CHR 0x80, CHR 0x82], [CHR 0xE2, CHR 0x80, CHR 0x83],
      [CHR 0xE2, CHR 0x80, CHR 0x84], [CHR 0xE2, CHR 0x80, CHR 0x85],
      [CHR 0xE2, CHR 0x80, CHR 0x86], [CHR 0xE2, CHR 0x80, CHR 0x87],
      [CHR 0xE2, CHR 0x80, CHR 0x88], [CHR 0xE2, CHR 0x80, CHR 0x89],
      [CHR 0xE2, CHR 0x80, CHR 0x8A],
      [CHR 0xE2, CHR 0x80, CHR 0xA8], [CHR 0xE2, CHR 0x80, CHR 0xA9],
      [CHR 0xE2, CHR 0x80, CHR 0xAF],
      [CHR 0xE2, CHR 0x81, CHR 0x9F],
      [CHR 0xE3, CHR 0x80, CHR 0x80],
      [CHR 0xEF, CHR 0xBB, CHR 0xBF]]"

text \<open>The white-space sequence a string starts with, if any.\<close>

definition leading_seq :: "string list \<Rightarrow> string \<Rightarrow> string option" where
  "leading_seq seqs s = find (\<lambda>w. w \<noteq> [] \<and> take (length w) s = w) seqs"

function strip_leading :: "string list \<Rightarrow> string \<Rightarrow> string" where
  "strip_leading seqs s =
     (case leading_seq seqs s of
        None \<Rightarrow> s
      | Some w \<Rightarrow> strip_leading seqs (drop (length w) s))"
  by pat_completeness auto
termination
proof (relation "measure (\<lambda>(seqs, s). length s)")
  show "wf (measure (\<lambda>(seqs, s). length s))" by simp
next
  fix seqs :: "string list" and s w :: string
  assume "leading_seq seqs s = Some w"
  then have "w \<noteq> [] \<and> take (length w) s = w"
    by (auto simp: leading_seq_def find_Some_iff)
  then have "s \<noteq> []" by auto
  with \<open>w \<noteq> [] \<and> take (length w) s = w\<close>
  show "((seqs, drop (length w) s), (seqs, s)) \<in> measure (\<lambda>(seqs, s). length s)"
    by (cases w) auto
qed

text \<open>\<^verbatim>\<open>String.prototype.trim\<close>: white space is removed at both ends.\<close>

definition trimStart :: "string \<Rightarrow> string" where
  "trimStart s = strip_leading whitespace_seqs s"

definition trimEnd :: "string \<Rightarrow> string" where
  "trimEnd s = rev (strip_leading (map rev whitespace_seqs) (rev s))"

definition js_trim :: "string \<Rightarrow> string" where
  "js_trim s = trimEnd (trimStart s)"

text \<open>\<^verbatim>\<open>s.replaceAll(/\s+/g, '')\<close>: every white-space character is deleted.\<close>

function remove_whitespace :: "string \<Rightarrow> string" where
  "remove_whitespace s =
     (case s of
        [] \<Rightarrow> []
      | c # cs \<Rightarrow>
          (case leading_seq whitespace_seqs s of
             None \<Rightarrow> c # remove_whitespace cs
           | Some w \<Rightarrow> remove_whitespace (drop (length w) s)))"
  by pat_completeness auto
termination
proof (relation "measure length")
  show "wf (measure length)" by simp
next
  fix s :: string and c cs
  assume "s = c # cs"
  then show "(cs, s) \<in> measure length" by simp
next
  fix s :: string and c cs w
  assume s: "s = c # cs" and "leading_seq whitespace_seqs s = Some w"
  then have "w \<noteq> []"
    by (auto simp: leading_seq_def find_Some_iff)
  with s show "(drop (length w) s, s) \<in> measure length"
    by (cases w) auto
qed

text \<open>
  \<^verbatim>\<open>s.split(sep)\<close> for a one-character separator: the pieces between the separators,
  never an empty array (\<^verbatim>\<open>"".split("-")\<close> is \<^verbatim>\<open>[""]\<close>).
\<close>

fun split_on :: "char \<Rightarrow> string \<Rightarrow> string list" where
  "split_on sep [] = [[]]"
| "split_on sep (c # cs) =
     (if c = sep then [] # split_on sep cs
      else (case split_on sep cs of
              [] \<Rightarrow> [[c]]
            | w # ws \<Rightarrow> (c # w) # ws))"

text \<open>\<^verbatim>\<open>parts.join(sep)\<close>.\<close>

fun join :: "string \<Rightarrow> string list \<Rightarrow> string" where
  "join sep [] = []"
| "join sep [w] = w"
| "join sep (w # ws) = w @ sep @ join sep ws"

section \<open>JavaScript numbers\<close>

text \<open>
  \<^verbatim>\<open>Number(text)\<close> follows the StringNumericLiteral grammar of ECMAScript: white space is
  trimmed, the empty text is 0, then a binary, octal or hexadecimal integer, or an
  optionally signed decimal with an optional fraction and exponent, or \<^verbatim>\<open>Infinity\<close>;
  anything else is \<^verbatim>\<open>NaN\<close>. A number is a double: the rational that the literal
  denotes is rounded to the nearest double, ties to the even mantissa
  (\<open>round_double\<close>), as the engines do for a literal of any length. A finite double
  is kept as the rational it is; the sign of zero is not kept, since nothing here reads
  it.
\<close>

datatype jsnum = NaN | Num rat | PosInf | NegInf

definition hex_digit :: "char \<Rightarrow> nat option" where
  "hex_digit c =
     (let n = (of_char c :: nat) in
      if 48 \<le> n \<and> n \<le> 57 then Some (n - 48)
      else if 97 \<le> n \<and> n \<le> 102 then Some (n - 87)
      else if 65 \<le> n \<and> n \<le> 70 then Some (n - 55)
      else None)"

definition digit_base :: "nat \<Rightarrow> char \<Rightarrow> nat option" where
  "digit_base b c =
     (case hex_digit c of
        None \<Rightarrow> None
      | Some d \<Rightarrow> if d < b then Some d else None)"

definition is_digit :: "char \<Rightarrow> bool" where
  "is_digit c = (digit_base 10 c \<noteq> None)"

fun digits_base :: "nat \<Rightarrow> string \<Rightarrow> nat \<Rightarrow> nat option" where
  "digits_base b [] acc = Some acc"
| "digits_base b (c # cs) acc =
     (case digit_base b c of
        None \<Rightarrow> None
      | Some d \<Rightarrow> digits_base b cs (b * acc + d))"

definition parse_nat :: "nat \<Rightarrow> string \<Rightarrow> nat option" where
  "parse_nat b ds = (if ds = [] then None else digits_base b ds 0)"

definition nonDecimalLiteral :: "string \<Rightarrow> nat option" where
  "nonDecimalLiteral t =
     (case t of
        c0 # c1 # ds \<Rightarrow>
          if c0 \<noteq> CHR ''0'' then None
          else if c1 = CHR ''x'' \<or> c1 = CHR ''X'' then parse_nat 16 ds
          else if c1 = CHR ''o'' \<or> c1 = CHR ''O'' then parse_nat 8 ds
          else if c1 = CHR ''b'' \<or> c1 = CHR ''B'' then parse_nat 2 ds
          else None
      | _ \<Rightarrow> None)"

definition exponentPart :: "string \<Rightarrow> int option" where
  "exponentPart r =
     (case r of
        [] \<Rightarrow> Some 0
      | e # ds \<Rightarrow>
          if e = CHR ''e'' \<or> e = CHR ''E'' then
            (case ds of
               [] \<Rightarrow> None
             | s # ds' \<Rightarrow>
                 if s = CHR ''+'' then map_option int (parse_nat 10 ds')
                 else if s = CHR ''-'' then map_option (\<lambda>n. - int n) (parse_nat 10 ds')
                 else map_option int (parse_nat 10 ds))
          else None)"

definition scale10 :: "rat \<Rightarrow> int \<Rightarrow> rat" where
  "scale10 m e = (if 0 \<le> e then m * 10 ^ nat e else m / 10 ^ nat (- e))"

text \<open>
  The doubles are the numbers \<open>m * 2 ^ p\<close> with \<open>\<bar>m\<bar> < 2 ^ 53\<close> and
  \<open>- 1074 \<le> p \<le> 971\<close>. A rational \<open>0 \<le> q\<close> is rounded at the least such \<open>p\<close> with
  \<open>q < 2 ^ 53 * 2 ^ p\<close>; a \<open>q\<close> that has none, or that rounds up to \<open>2 ^ 1024\<close>, is
  \<^verbatim>\<open>Infinity\<close>.
\<close>

definition pow2 :: "int \<Rightarrow> rat" where
  "pow2 p = (if 0 \<le> p then 2 ^ nat p else 1 / 2 ^ nat (- p))"

definition round_half_even :: "rat \<Rightarrow> int" where
  "round_half_even x =
     (let f = \<lfloor>x\<rfloor>;
          d = x - of_int f
      in if d < 1 / 2 then f
         else if 1 / 2 < d then f + 1
         else if even f then f else f + 1)"

definition round_double_pos :: "rat \<Rightarrow> jsnum" where
  "round_double_pos q =
     (case find (\<lambda>p. q < 2 ^ 53 * pow2 p) [- 1074 .. 971] of
        None \<Rightarrow> PosInf
      | Some p \<Rightarrow>
          (let r = of_int (round_half_even (q / pow2 p)) * pow2 p
           in if 2 ^ 1024 \<le> r then PosInf else Num r))"

definition negate :: "jsnum \<Rightarrow> jsnum" where
  "negate n = (case n of NaN \<Rightarrow> NaN | Num q \<Rightarrow> Num (- q) | PosInf \<Rightarrow> NegInf | NegInf \<Rightarrow> PosInf)"

definition round_double :: "rat \<Rightarrow> jsnum" where
  "round_double q = (if q < 0 then negate (round_double_pos (- q)) else round_double_pos q)"

definition unsignedDecimal :: "string \<Rightarrow> jsnum" where
  "unsignedDecimal t =
     (if t = ''Infinity'' then PosInf
      else
        let ip = takeWhile is_digit t;
            r1 = dropWhile is_digit t;
            fp = (case r1 of
                    [] \<Rightarrow> []
                  | d # r \<Rightarrow> if d = CHR ''.'' then takeWhile is_digit r else []);
            r2 = (case r1 of
                    [] \<Rightarrow> []
                  | d # r \<Rightarrow> if d = CHR ''.'' then dropWhile is_digit r else r1)
        in if ip = [] \<and> fp = [] then NaN
           else (case exponentPart r2 of
                   None \<Rightarrow> NaN
                 | Some e \<Rightarrow>
                     (case parse_nat 10 (ip @ fp) of
                        None \<Rightarrow> NaN
                      | Some m \<Rightarrow> round_double (scale10 (of_nat m) (e - int (length fp))))))"

definition strDecimalLiteral :: "string \<Rightarrow> jsnum" where
  "strDecimalLiteral t =
     (case t of
        [] \<Rightarrow> NaN
      | c # r \<Rightarrow>
          if c = CHR ''+'' then unsignedDecimal r
          else if c = CHR ''-'' then negate (unsignedDecimal r)
          else unsignedDecimal t)"

definition js_Number :: "string \<Rightarrow> jsnum" where
  "js_Number s =
     (let t = js_trim s in
      if t = [] then Num 0
      else (case nonDecimalLiteral t of
              Some n \<Rightarrow> round_double (of_nat n)
            | None \<Rightarrow> strDecimalLiteral t))"

text \<open>\<^verbatim>\<open>!n\<close> for a number: \<^verbatim>\<open>NaN\<close> and zero are falsy.\<close>

definition falsy :: "jsnum \<Rightarrow> bool" where
  "falsy n = (n = NaN \<or> n = Num 0)"

text \<open>\<^verbatim>\<open>n - 1\<close>, rounded as every arithmetic result is.\<close>

definition minus_one :: "jsnum \<Rightarrow> jsnum" where
  "minus_one n = (case n of Num q \<Rightarrow> round_double (q - 1) | _ \<Rightarrow> n)"

section \<open>JavaScript dates\<close>

text \<open>
  \<^verbatim>\<open>new Date(year, monthIndex)\<close> is local midnight of the first day of a month. It is
  kept as its local calendar year and month index (0..11), or \<open>None\<close> for an
  \<^verbatim>\<open>Invalid Date\<close>. As ECMAScript has it: both arguments are truncated to integers, a
  year from 0 to 99 means 1900 to 1999, month indices outside 0..11 carry into the year,
  and a date outside the representable range (20 April -271821 to 13 September 275760)
  is invalid. \<^verbatim>\<open>toLocaleDateString('en-US', {month: 'short', year: 'numeric'})\<close> prints
  the English month abbreviation, a space and the year of the era in decimal without
  padding, and \<^verbatim>\<open>Invalid Date\<close> for an invalid date.
\<close>

definition trunc :: "rat \<Rightarrow> int" where
  "trunc q = (if 0 \<le> q then \<lfloor>q\<rfloor> else \<lceil>q\<rceil>)"

definition in_range :: "int \<Rightarrow> nat \<Rightarrow> bool" where
  "in_range ym mn =
     ((- 271821 < ym \<or> (ym = - 271821 \<and> 4 \<le> mn)) \<and>
      (ym < 275760 \<or> (ym = 275760 \<and> mn \<le> 8)))"

definition new_Date :: "jsnum \<Rightarrow> jsnum \<Rightarrow> (int \<times> nat) option" where
  "new_Date year monthIndex =
     (case year of
        Num y \<Rightarrow>
          (case monthIndex of
             Num m \<Rightarrow>
               (let yi = trunc y;
                    yr = (if 0 \<le> yi \<and> yi \<le> 99 then 1900 + yi else yi);
                    mi = trunc m;
                    ym = yr + mi div 12;
                    mn = nat (mi mod 12)
                in if in_range ym mn then Some (ym, mn) else None)
           | _ \<Rightarrow> None)
      | _ \<Rightarrow> None)"

definition digit_char :: "nat \<Rightarrow> char" where
  "digit_char n = ''0123456789'' ! (n mod 10)"

fun string_of_nat :: "nat \<Rightarrow> string" where
  "string_of_nat n =
     (if n < 10 then [digit_char n]
      else string_of_nat (n div 10) @ [digit_char (n mod 10)])"

declare string_of_nat.simps [simp del]

text \<open>A month as the two digits of \<^verbatim>\<open>YYYY-MM\<close>.\<close>

definition pad2 :: "nat \<Rightarrow> string" where
  "pad2 m = [digit_char (m div 10), digit_char (m mod 10)]"

text \<open>A year as the four digits of \<^verbatim>\<open>YYYY-MM\<close>.\<close>

definition pad4 :: "nat \<Rightarrow> string" where
  "pad4 y = [digit_char (y div 1000), digit_char (y div 100 mod 10),
             digit_char (y div 10 mod 10), digit_char (y mod 10)]"

definition month_abbr :: "string list" where
  "month_abbr = [''Jan'', ''Feb'', ''Mar'', ''Apr'', ''May'', ''Jun'',
                 ''Jul'', ''Aug'', ''Sep'', ''Oct'', ''Nov'', ''Dec'']"

definition year_text :: "int \<Rightarrow> string" where
  "year_text y = (if 0 < y then string_of_nat (nat y) else string_of_nat (nat (1 - y)))"

definition toLocaleDateString :: "(int \<times> nat) option \<Rightarrow> string" where
  "toLocaleDateString d =
     (case d of
        None \<Rightarrow> ''Invalid Date''
      | Some (y, m) \<Rightarrow> month_abbr ! m @ '' '' @ year_text y)"

text \<open>
  \<^verbatim>\<open>formatDate\<close> (app.js, lines 189-195). Its argument is always a string at the three
  call sites. \<^verbatim>\<open>!dateStr\<close> holds for the empty string, and then
  \<^verbatim>\<open>dateStr || 'Present'\<close> is \<^verbatim>\<open>'Present'\<close>. The destructuring
  \<^verbatim>\<open>[year, month]\<close> takes the first two numbers; with one component \<^verbatim>\<open>month\<close> is
  \<^verbatim>\<open>undefined\<close>, which is falsy.
\<close>

definition formatDate :: "string \<Rightarrow> string" where
  "formatDate dateStr =
     (if dateStr = [] \<or> dateStr = ''Present'' then
        (if dateStr = [] then ''Present'' else dateStr)
      else
        (case map js_Number (split_on CHR ''-'' dateStr) of
           year # month # _ \<Rightarrow>
             if falsy year \<or> falsy month then dateStr
             else toLocaleDateString (new_Date year (minus_one month))
         | _ \<Rightarrow> dateStr))"

text \<open>
  \<^verbatim>\<open>new Date(eduDateStr + "-01")\<close> (line 314) parses a date string. ECMAScript fixes
  the result for its own date-time format, where a year is four digits, or a sign and
  six digits. The argument ends in \<^verbatim>\<open>-01\<close>, so of that format only \<^verbatim>\<open>YYYY-MM\<close> (from
  the date \<^verbatim>\<open>YYYY\<close>) and \<^verbatim>\<open>YYYY-MM-DD\<close> (from the date \<^verbatim>\<open>YYYY-MM\<close>) can apply: a
  time of day ends in digits after a colon or a point, and a time zone is \<^verbatim>\<open>Z\<close> or ends
  in \<^verbatim>\<open>:mm\<close>. Both are midnight UTC of the first day of the month, in milliseconds
  since 1970, and an invalid date when the month is not 01..12 or the time is outside
  the range of a date. How any other string parses, the year \<^verbatim>\<open>-000000\<close> included, is
  left to the JavaScript engine; it is a parameter of the model (\<open>dateParse\<close> below).
\<close>

definition days_from_civil :: "int \<Rightarrow> int \<Rightarrow> int \<Rightarrow> int" where
  "days_from_civil y m d =
     (let y' = (if m \<le> 2 then y - 1 else y);
          era = y' div 400;
          yoe = y' - era * 400;
          mp = (m + 9) mod 12;
          doy = (153 * mp + 2) div 5 + d - 1;
          doe = yoe * 365 + yoe div 4 - yoe div 100 + doy
      in era * 146097 + doe - 719468)"

definition first_of_month_utc :: "nat \<Rightarrow> nat \<Rightarrow> int" where
  "first_of_month_utc y m = days_from_civil (int y) (int m) 1 * 86400000"

text \<open>The year of a date string: \<^verbatim>\<open>YYYY\<close> or \<^verbatim>\<open>+YYYYYY\<close> or \<^verbatim>\<open>-YYYYYY\<close>, and what
  follows it.\<close>

definition iso_year :: "string \<Rightarrow> (int \<times> string) option" where
  "iso_year s =
     (case s of
        [] \<Rightarrow> None
      | c # r \<Rightarrow>
          if c = CHR ''+'' \<or> c = CHR ''-'' then
            (if length (take 6 r) = 6 \<and> list_all is_digit (take 6 r) then
               (case parse_nat 10 (take 6 r) of
                  None \<Rightarrow> None
                | Some n \<Rightarrow>
                    if c = CHR ''+'' then Some (int n, drop 6 r)
                    else if n = 0 then None
                    else Some (- int n, drop 6 r))
             else None)
          else
            (if length (take 4 s) = 4 \<and> list_all is_digit (take 4 s) then
               map_option (\<lambda>n. (int n, drop 4 s)) (parse_nat 10 (take 4 s))
             else None))"

definition msPerDay :: int where
  "msPerDay = 86400000"

text \<open>\<^verbatim>\<open>TimeClip\<close>: a time more than \<open>8.64 * 10 ^ 15\<close> ms from 1970 is no date.\<close>

definition timeClip :: "int \<Rightarrow> int option" where
  "timeClip t = (if \<bar>t\<bar> \<le> 8640000000000000 then Some t else None)"

text \<open>The calendar date (year, month 1..12, day) of a day number, the inverse of
  \<open>days_from_civil\<close>: \<^verbatim>\<open>YearFromTime\<close>, \<^verbatim>\<open>MonthFromTime\<close> and \<^verbatim>\<open>DateFromTime\<close>.\<close>

definition civil_from_days :: "int \<Rightarrow> int \<times> int \<times> int" where
  "civil_from_days z =
     (let z' = z + 719468;
          era = z' div 146097;
          doe = z' - era * 146097;
          yoe = (doe - doe div 1460 + doe div 36524 - doe div 146096) div 365;
          doy = doe - (365 * yoe + yoe div 4 - yoe div 100);
          mp = (5 * doy + 2) div 153;
          d = doy - (153 * mp + 2) div 5 + 1;
          m = (if mp < 10 then mp + 3 else mp - 9);
          y = yoe + era * 400
      in (if m \<le> 2 then y + 1 else y, m, d))"

section \<open>Objects and the resume\<close>

text \<open>
  A record of the resume (a contact, an education or an experience entry) is a
  JavaScript object whose values are strings: an association list of its own
  properties in insertion order. A property the object does not have reads as
  \<^verbatim>\<open>undefined\<close>, here \<open>None\<close>. \<^verbatim>\<open>v || d\<close> takes \<open>d\<close> when \<open>v\<close> is \<^verbatim>\<open>undefined\<close> or
  the empty string, and a template literal prints \<^verbatim>\<open>undefined\<close> as that word.
\<close>

type_synonym jsobj = "(string \<times> string) list"

definition fld :: "jsobj \<Rightarrow> string \<Rightarrow> string option" where
  "fld obj k = map_of obj k"

definition truthy :: "string option \<Rightarrow> bool" where
  "truthy v = (case v of None \<Rightarrow> False | Some s \<Rightarrow> s \<noteq> [])"

definition or_else :: "string option \<Rightarrow> string \<Rightarrow> string" where
  "or_else v d = (case v of None \<Rightarrow> d | Some s \<Rightarrow> if s = [] then d else s)"

definition template :: "string option \<Rightarrow> string" where
  "template v = (case v of None \<Rightarrow> ''undefined'' | Some s \<Rightarrow> s)"

record tag =
  tag_string :: string
  isRegex :: bool

text \<open>
  The global \<^verbatim>\<open>resume\<close> (lines 50-60). Its sets hold objects, which a
  \<^verbatim>\<open>Set\<close> compares by reference: every object put there is a fresh one (made by
  \<^verbatim>\<open>JSON.parse\<close>, by \<^verbatim>\<open>migrateItem\<close> or by a form), so no two are ever merged and a
  set is the list of its elements in insertion order.
\<close>

record resume =
  version :: "string option"
  name :: "string option"
  email :: "string option"
  phone :: "string option"
  additionalText :: "string option"
  contacts :: "jsobj list"
  education :: "jsobj list"
  experience :: "jsobj list"
  tags :: "tag list"

definition APP_VERSION :: string where
  "APP_VERSION = ''1.0.0''"

definition initial_resume :: resume where
  "initial_resume =
     \<lparr>version = Some APP_VERSION, name = Some [], email = Some [], phone = Some [],
      additionalText = Some [], contacts = [], education = [], experience = [], tags = []\<rparr>"

section \<open>Loading and saving\<close>

text \<open>
  A parsed JSON document of the exported schema: every field may be absent.
  \<^verbatim>\<open>JSON.stringify\<close> followed by \<^verbatim>\<open>JSON.parse\<close> is the identity on such a
  document, so saving is modelled up to the object handed to \<^verbatim>\<open>JSON.stringify\<close>.
\<close>

record json_resume =
  json_version :: "string option"
  json_name :: "string option"
  json_email :: "string option"
  json_phone :: "string option"
  json_additionalText :: "string option"
  json_contacts :: "jsobj list option"
  json_education :: "jsobj list option"
  json_experience :: "jsobj list option"
  json_tags :: "tag list option"

text \<open>
  \<^verbatim>\<open>mapKeyToProperty\<close> (lines 70-89). \<^verbatim>\<open>toUpperCase\<close> is modelled on the ASCII
  letters. A key that names a member of \<^verbatim>\<open>Object.prototype\<close> (\<^verbatim>\<open>constructor\<close>,
  \<^verbatim>\<open>toString\<close>, ...) finds that member in \<^verbatim>\<open>overrides[key]\<close>; such keys are outside
  this model, and none of them is a field of the schema.
\<close>

definition overrides :: "(string \<times> string) list" where
  "overrides = [(''contact-form-name-input'', ''name''), (''contact-form-url-input'', ''url'')]"

definition toUpperCase_char :: "char \<Rightarrow> char" where
  "toUpperCase_char c =
     (case map_of (zip ''abcdefghijklmnopqrstuvwxyz'' ''ABCDEFGHIJKLMNOPQRSTUVWXYZ'') c of
        None \<Rightarrow> c
      | Some u \<Rightarrow> u)"

definition capitalize :: "string \<Rightarrow> string" where
  "capitalize part = (case part of [] \<Rightarrow> [] | c # cs \<Rightarrow> toUpperCase_char c # cs)"

definition mapKeyToProperty :: "string \<Rightarrow> string" where
  "mapKeyToProperty key =
     (case map_of overrides key of
        Some p \<Rightarrow> p
      | None \<Rightarrow>
          (let parts = split_on CHR ''-'' key;
               parts' = (if 1 < length parts \<and>
                            (hd parts = ''experience'' \<or> hd parts = ''education''
                             \<or> hd parts = ''contact'')
                         then tl parts else parts)
           in case parts' of
                [] \<Rightarrow> []
              | p # ps \<Rightarrow> concat (p # map capitalize ps)))"

text \<open>\<^verbatim>\<open>obj[k] = v\<close>: an existing property keeps its place, a new one goes last.\<close>

fun obj_set :: "jsobj \<Rightarrow> string \<Rightarrow> string \<Rightarrow> jsobj" where
  "obj_set [] k v = [(k, v)]"
| "obj_set ((k', v') # rest) k v =
     (if k' = k then (k, v) # rest else (k', v') # obj_set rest k v)"

definition migrateItem :: "jsobj \<Rightarrow> jsobj" where
  "migrateItem item =
     foldl (\<lambda>migrated (key, v). obj_set migrated (mapKeyToProperty key) v) [] item"

definition array_or_empty :: "'a list option \<Rightarrow> 'a list" where
  "array_or_empty xs = (case xs of None \<Rightarrow> [] | Some ys \<Rightarrow> ys)"

text \<open>\<^verbatim>\<open>safeLoadResume\<close> (lines 113-137): \<^verbatim>\<open>resume.version\<close> is not assigned.\<close>

definition safeLoadResume :: "resume \<Rightarrow> json_resume \<Rightarrow> resume" where
  "safeLoadResume resume loadedResume =
     resume
       \<lparr>name := Some (or_else (json_name loadedResume) []),
        email := Some (or_else (json_email loadedResume) []),
        phone := Some (or_else (json_phone loadedResume) []),
        additionalText := Some (or_else (json_additionalText loadedResume) []),
        contacts := map migrateItem (array_or_empty (json_contacts loadedResume)),
        education := map migrateItem (array_or_empty (json_education loadedResume)),
        experience := map migrateItem (array_or_empty (json_experience loadedResume)),
        tags := array_or_empty (json_tags loadedResume)\<rparr>"

text \<open>
  \<^verbatim>\<open>resumeToSave\<close> of \<^verbatim>\<open>saveResumeToLocalStorage\<close> (lines 733-739) and of
  \<^verbatim>\<open>downloadJson\<close> (lines 747-753), which build the same object.
\<close>

definition resumeToSave :: "resume \<Rightarrow> json_resume" where
  "resumeToSave resume =
     \<lparr>json_version = version resume, json_name = name resume, json_email = email resume,
      json_phone = phone resume, json_additionalText = additionalText resume,
      json_contacts = Some (contacts resume), json_education = Some (education resume),
      json_experience = Some (experience resume), json_tags = Some (tags resume)\<rparr>"

text \<open>The field names of the schema (the typedefs of lines 1-45, and \<^verbatim>\<open>category\<close>).\<close>

definition contact_fields :: "string list" where
  "contact_fields = [''name'', ''url'']"

definition education_fields :: "string list" where
  "education_fields = [''date'', ''degreeType'', ''name'', ''category'', ''city'', ''state'']"

definition experience_fields :: "string list" where
  "experience_fields = [''title'', ''company'', ''location'', ''url'', ''startDate'',
                        ''endDate'', ''summary'', ''details'', ''category'']"

definition schema_item :: "string list \<Rightarrow> jsobj \<Rightarrow> bool" where
  "schema_item allowed item =
     (distinct (map fst item) \<and> list_all (\<lambda>k. k \<in> set allowed) (map fst item))"

definition schema_items :: "string list \<Rightarrow> jsobj list option \<Rightarrow> bool" where
  "schema_items allowed xs =
     (case xs of None \<Rightarrow> False | Some ys \<Rightarrow> list_all (schema_item allowed) ys)"

definition conforms :: "json_resume \<Rightarrow> bool" where
  "conforms d =
     (json_version d \<noteq> None \<and> json_name d \<noteq> None \<and> json_email d \<noteq> None
      \<and> json_phone d \<noteq> None \<and> json_additionalText d \<noteq> None
      \<and> schema_items contact_fields (json_contacts d)
      \<and> schema_items education_fields (json_education d)
      \<and> schema_items experience_fields (json_experience d)
      \<and> json_tags d \<noteq> None)"

section \<open>The drawing interface and the environment\<close>

text \<open>
  What \<^verbatim>\<open>generatePdf\<close> does is the sequence of calls it makes on the jsPDF document
  \<^verbatim>\<open>doc\<close>, in order, queries included. The document's own behaviour is not part of the
  repository: what \<^verbatim>\<open>getTextWidth\<close> and \<^verbatim>\<open>splitTextToSize\<close> answer depends on the
  document's state, that is on the calls made so far, and is a parameter, as are the
  page width, \<^verbatim>\<open>localeCompare\<close>, the engine's parser for date strings that are not
  ISO dates, the clock and the time zone. The clock is read twice: \<open>now\<close> is the time
  of \<^verbatim>\<open>const now = new Date()\<close> (line 291) and \<open>now2\<close> that of
  \<^verbatim>\<open>const threeYearsAgo = new Date()\<close> (line 292), in milliseconds since 1970;
  \<open>localTZA t isUTC\<close> is the offset of local time from UTC in milliseconds, at the UTC
  time \<open>t\<close> or at the local time \<open>t\<close>. Lengths are in millimetres and are exact
  rationals here, where JavaScript computes in doubles.
\<close>

datatype align = AlignLeft | AlignCenter | AlignRight

datatype content = Str string | Lines "string list"

datatype call =
    SetFont string string
  | SetFontSize rat
  | SetTextColor nat nat nat
  | SetDrawColor nat nat nat
  | GetTextWidth string
  | SplitTextToSize string rat
  | Text content rat rat align
  | Link rat rat rat rat string
  | Line rat rat rat rat
  | AddPage

record env =
  pageWidth :: rat
  getTextWidth :: "call list \<Rightarrow> string \<Rightarrow> rat"
  splitTextToSize :: "call list \<Rightarrow> string \<Rightarrow> rat \<Rightarrow> string list"
  localeCompare :: "string \<Rightarrow> string \<Rightarrow> int"
  dateParse :: "string \<Rightarrow> int option"
  now :: int
  now2 :: int
  localTZA :: "int \<Rightarrow> bool \<Rightarrow> int"

text \<open>
  Lines 291-293: \<^verbatim>\<open>threeYearsAgo.setFullYear(now.getFullYear() - 3)\<close>.
  \<^verbatim>\<open>getFullYear\<close> is the year of the local date. \<^verbatim>\<open>setFullYear(y)\<close> keeps the local
  month, day of the month and time of day and replaces the year: the new day is the
  first of that month of the year \<open>y\<close> plus the day of the month less one (so that 29
  February becomes 1 March in a year that is not a leap year), and the result is
  brought back to UTC and clipped.
\<close>

definition localTime :: "env \<Rightarrow> int \<Rightarrow> int" where
  "localTime env t = t + localTZA env t True"

definition utc :: "env \<Rightarrow> int \<Rightarrow> int" where
  "utc env t = t - localTZA env t False"

definition getFullYear :: "env \<Rightarrow> int \<Rightarrow> int" where
  "getFullYear env t = fst (civil_from_days (localTime env t div msPerDay))"

definition setFullYear :: "env \<Rightarrow> int \<Rightarrow> int \<Rightarrow> int option" where
  "setFullYear env t y =
     (case civil_from_days (localTime env t div msPerDay) of
        (y0, m, dt) \<Rightarrow>
          timeClip (utc env ((days_from_civil y m 1 + dt - 1) * msPerDay
                             + localTime env t mod msPerDay)))"

definition threeYearsAgo :: "env \<Rightarrow> int option" where
  "threeYearsAgo env = setFullYear env (now2 env) (getFullYear env (now env) - 3)"

text \<open>The layout state: the cursor \<^verbatim>\<open>y\<close> and the calls made so far.\<close>

record pdf =
  ypos :: rat
  calls :: "call list"

definition emit :: "call \<Rightarrow> pdf \<Rightarrow> pdf" where
  "emit c st = st\<lparr>calls := calls st @ [c]\<rparr>"

definition advance :: "rat \<Rightarrow> pdf \<Rightarrow> pdf" where
  "advance d st = st\<lparr>ypos := ypos st + d\<rparr>"

definition margin :: rat where
  "margin = 20"

definition contentWidth :: "env \<Rightarrow> rat" where
  "contentWidth env = pageWidth env - 2 * margin"

definition getLineHeightMM :: "rat \<Rightarrow> rat \<Rightarrow> rat" where
  "getLineHeightMM fontSize spacing = (fontSize * 0.352778) * spacing"

definition sectionFontSize :: rat where
  "sectionFontSize = 10.5"

definition sectionSpacing :: rat where
  "sectionSpacing = 1"

definition sectionLineHeight :: rat where
  "sectionLineHeight = getLineHeightMM sectionFontSize sectionSpacing"

definition bullet :: string where
  "bullet = [CHR 0xE2, CHR 0x80, CHR 0xA2]"

definition separator :: string where
  "separator = '' | ''"

section \<open>Sorting\<close>

text \<open>
  \<^verbatim>\<open>Array.prototype.sort\<close> with a comparator is a stable sort: an element goes before
  another when the comparator is negative, after it when positive, and keeps its place
  relative to those it compares equal to. For a consistent comparator that fixes the
  result, which insertion from the right computes. (For an inconsistent one ECMAScript
  leaves the order to the engine.)
\<close>

fun insert_sorted :: "('a \<Rightarrow> 'a \<Rightarrow> int) \<Rightarrow> 'a \<Rightarrow> 'a list \<Rightarrow> 'a list" where
  "insert_sorted cmp x [] = [x]"
| "insert_sorted cmp x (y # ys) =
     (if cmp x y \<le> 0 then x # y # ys else y # insert_sorted cmp x ys)"

definition js_sort :: "('a \<Rightarrow> 'a \<Rightarrow> int) \<Rightarrow> 'a list \<Rightarrow> 'a list" where
  "js_sort cmp xs = foldr (insert_sorted cmp) xs []"

text \<open>The comparator of \<^verbatim>\<open>sortedEducation\<close> (lines 287-289).\<close>

definition compareEducation :: "env \<Rightarrow> jsobj \<Rightarrow> jsobj \<Rightarrow> int" where
  "compareEducation env a b =
     localeCompare env (or_else (fld b ''date'') []) (or_else (fld a ''date'') [])"

definition sortedEducation :: "env \<Rightarrow> resume \<Rightarrow> jsobj list" where
  "sortedEducation env resume = js_sort (compareEducation env) (education resume)"

text \<open>
  \<^verbatim>\<open>categoryOrder\<close> (lines 343-350) and the comparator of \<^verbatim>\<open>sortedExperience\<close>
  (lines 352-361). \<^verbatim>\<open>categoryOrder[a.category]\<close> reads an own property of the table
  or, for a category that names a member of \<^verbatim>\<open>Object.prototype\<close>, that inherited
  member: an object, which is truthy, differs from every number and from every other
  member, and gives \<^verbatim>\<open>NaN\<close> when subtracted, which \<^verbatim>\<open>sort\<close> reads as 0. A missing
  category is looked up as the key \<^verbatim>\<open>undefined\<close>.
\<close>

definition categoryOrder :: "(string \<times> nat) list" where
  "categoryOrder =
     [(''Work Experience'', 1), (''Contract'', 2), (''Internship'', 3),
      (''Project'', 4), (''Projects'', 4), (''Volunteer'', 5)]"

definition object_prototype_members :: "string list" where
  "object_prototype_members =
     [''constructor'', ''hasOwnProperty'', ''isPrototypeOf'', ''propertyIsEnumerable'',
      ''toLocaleString'', ''toString'', ''valueOf'', ''__proto__'',
      ''__defineGetter__'', ''__defineSetter__'', ''__lookupGetter__'', ''__lookupSetter__'']"

datatype jsorder = Prio nat | Member string

definition order_of :: "jsobj \<Rightarrow> jsorder" where
  "order_of a =
     (let key = template (fld a ''category'') in
      case map_of categoryOrder key of
        Some n \<Rightarrow> Prio n
      | None \<Rightarrow> if key \<in> set object_prototype_members then Member key else Prio 99)"

definition compareExperience :: "env \<Rightarrow> jsobj \<Rightarrow> jsobj \<Rightarrow> int" where
  "compareExperience env a b =
     (let orderA = order_of a; orderB = order_of b in
      if orderA \<noteq> orderB then
        (case orderA of
           Prio x \<Rightarrow> (case orderB of Prio y \<Rightarrow> int x - int y | Member _ \<Rightarrow> 0)
         | Member _ \<Rightarrow> 0)
      else localeCompare env (or_else (fld b ''startDate'') [])
                             (or_else (fld a ''startDate'') []))"

definition sortedExperience :: "env \<Rightarrow> resume \<Rightarrow> jsobj list" where
  "sortedExperience env resume = js_sort (compareExperience env) (experience resume)"

text \<open>The two sort keys of an entry: its priority and its start date.\<close>

definition priority :: "jsobj \<Rightarrow> nat" where
  "priority a = (case order_of a of Prio n \<Rightarrow> n | Member _ \<Rightarrow> 99)"

definition startDate_of :: "jsobj \<Rightarrow> string" where
  "startDate_of a = or_else (fld a ''startDate'') []"

definition inherited_category :: "jsobj \<Rightarrow> bool" where
  "inherited_category a = (template (fld a ''category'') \<in> set object_prototype_members)"

text \<open>
  The comparator written on the two keys; \<^verbatim>\<open>compareExperience\<close> is this function on
  entries whose category is not an inherited member.
\<close>

definition compareKeys :: "env \<Rightarrow> jsobj \<Rightarrow> jsobj \<Rightarrow> int" where
  "compareKeys env a b =
     (if priority a \<noteq> priority b then int (priority a) - int (priority b)
      else localeCompare env (startDate_of b) (startDate_of a))"

definition same_key :: "env \<Rightarrow> jsobj \<Rightarrow> jsobj \<Rightarrow> bool" where
  "same_key env k a =
     (priority a = priority k \<and> localeCompare env (startDate_of k) (startDate_of a) = 0)"

definition in_order :: "env \<Rightarrow> jsobj \<Rightarrow> jsobj \<Rightarrow> bool" where
  "in_order env a b =
     (priority a < priority b
      \<or> (priority a = priority b \<and> localeCompare env (startDate_of b) (startDate_of a) \<le> 0))"

text \<open>
  What the theorems on sorting ask of \<^verbatim>\<open>localeCompare\<close>: it is a consistent comparator
  (a total preorder), and no string goes before the empty one.
\<close>

definition consistent :: "('a \<Rightarrow> 'a \<Rightarrow> int) \<Rightarrow> bool" where
  "consistent cmp =
     ((\<forall>a. cmp a a = 0) \<and> (\<forall>a b. (cmp a b < 0) = (0 < cmp b a))
      \<and> (\<forall>a b c. cmp a b \<le> 0 \<and> cmp b c \<le> 0 \<longrightarrow> cmp a c \<le> 0))"

definition empty_first :: "(string \<Rightarrow> string \<Rightarrow> int) \<Rightarrow> bool" where
  "empty_first cmp = (\<forall>s. cmp [] s \<le> 0)"

text \<open>Comparison by code unit, the order \<^verbatim>\<open>localeCompare\<close> has on digits and hyphens.\<close>

fun lex_compare :: "string \<Rightarrow> string \<Rightarrow> int" where
  "lex_compare [] [] = 0"
| "lex_compare [] (d # ds) = - 1"
| "lex_compare (c # cs) [] = 1"
| "lex_compare (c # cs) (d # ds) =
     (if (of_char c :: nat) < of_char d then - 1
      else if (of_char d :: nat) < of_char c then 1
      else lex_compare cs ds)"

section \<open>The layout: \<^verbatim>\<open>generatePdf\<close>\<close>

text \<open>
  \<^verbatim>\<open>generatePdf\<close> (lines 168-450) is one function; it is cut here into its numbered
  parts, each taking the layout state to the next one. Lines 198-204: the name.
\<close>

definition drawName :: "env \<Rightarrow> resume \<Rightarrow> pdf \<Rightarrow> pdf" where
  "drawName env resume st =
     (let st1 = emit (SetFont ''helvetica'' ''normal'') st;
          st2 = emit (SetFontSize 14) st1;
          st3 = emit (SetFont ''helvetica'' ''bold'') st2;
          st4 = emit (Text (Str (or_else (name resume) [])) (pageWidth env / 2) (ypos st3)
                        AlignCenter) st3
      in advance (getLineHeightMM 14 1.15) st4)"

text \<open>Lines 211-225: the parts of the contact line, each a text and a link.\<close>

type_synonym contactPart = "string \<times> string option"

definition contactParts :: "resume \<Rightarrow> contactPart list" where
  "contactParts resume =
     (case phone resume of
        None \<Rightarrow> []
      | Some p \<Rightarrow> if p = [] then [] else [(p, Some (''tel:'' @ remove_whitespace p))])
     @ (case email resume of
          None \<Rightarrow> []
        | Some e \<Rightarrow> if e = [] then [] else [(e, Some (''mailto:'' @ e))])
     @ concat (map (\<lambda>contact.
          case fld contact ''name'' of
            None \<Rightarrow> []
          | Some n \<Rightarrow> if n = [] then [] else [(n, fld contact ''url'')]) (contacts resume))"

text \<open>Lines 232-238: the total width, asked of the document part by part.\<close>

fun totalWidth_loop :: "env \<Rightarrow> contactPart list \<Rightarrow> rat \<times> pdf \<Rightarrow> rat \<times> pdf" where
  "totalWidth_loop env [] acc = acc"
| "totalWidth_loop env (part # rest) (totalWidth, st) =
     (let w = getTextWidth env (calls st) (fst part);
          st1 = emit (GetTextWidth (fst part)) st
      in if rest \<noteq> [] then
           (let ws = getTextWidth env (calls st1) separator;
                st2 = emit (GetTextWidth separator) st1
            in totalWidth_loop env rest (totalWidth + w + ws, st2))
         else totalWidth_loop env rest (totalWidth + w, st1))"

text \<open>Lines 242-257: each part in blue, its link rectangle, a black separator between.\<close>

fun drawParts_loop :: "env \<Rightarrow> contactPart list \<Rightarrow> rat \<times> pdf \<Rightarrow> rat \<times> pdf" where
  "drawParts_loop env [] acc = acc"
| "drawParts_loop env (part # rest) (currentX, st) =
     (let st1 = emit (SetTextColor 0 0 255) st;
          partWidth = getTextWidth env (calls st1) (fst part);
          st2 = emit (GetTextWidth (fst part)) st1;
          st3 = emit (Text (Str (fst part)) currentX (ypos st) AlignLeft) st2;
          st4 = (case snd part of
                   None \<Rightarrow> st3
                 | Some l \<Rightarrow> if l = [] then st3
                             else emit (Link currentX (ypos st - 4) partWidth 5 l) st3);
          currentX1 = currentX + partWidth
      in if rest \<noteq> [] then
           (let st5 = emit (SetTextColor 0 0 0) st4;
                st6 = emit (Text (Str separator) currentX1 (ypos st) AlignLeft) st5;
                ws = getTextWidth env (calls st6) separator;
                st7 = emit (GetTextWidth separator) st6
            in drawParts_loop env rest (currentX1 + ws, st7))
         else drawParts_loop env rest (currentX1, st4))"

text \<open>Lines 208-259: the contact line.\<close>

definition drawContacts :: "env \<Rightarrow> resume \<Rightarrow> pdf \<Rightarrow> pdf" where
  "drawContacts env resume st =
     (let st1 = emit (SetFontSize 12) st;
          st2 = emit (SetFont ''helvetica'' ''normal'') st1;
          parts = contactParts resume
      in if parts \<noteq> [] then
           (let (totalWidth, st3) = totalWidth_loop env parts (0, st2);
                currentX = (pageWidth env - totalWidth) / 2;
                (lastX, st4) = drawParts_loop env parts (currentX, st3)
            in advance (getLineHeightMM 12 1.15) st4)
         else st2)"

text \<open>Lines 262-269: the additional text, wrapped and centred.\<close>

definition drawAdditionalText :: "env \<Rightarrow> resume \<Rightarrow> pdf \<Rightarrow> pdf" where
  "drawAdditionalText env resume st =
     (case additionalText resume of
        None \<Rightarrow> st
      | Some a \<Rightarrow>
          (let additional = js_trim a in
           if additional = [] then st
           else
             (let st1 = emit (SetTextColor 0 0 0) st;
                  st2 = emit (SetFontSize 12) st1;
                  lines = splitTextToSize env (calls st2) additional (contentWidth env);
                  st3 = emit (SplitTextToSize additional (contentWidth env)) st2;
                  st4 = emit (Text (Lines lines) (pageWidth env / 2) (ypos st3) AlignCenter) st3
              in advance (of_nat (length lines) * getLineHeightMM 12 1.15) st4)))"

text \<open>
  Lines 311-321: the right-aligned text of an education record. \<^verbatim>\<open>eduDate\<close> is the
  time value of \<^verbatim>\<open>new Date(eduDateStr + "-01")\<close>, \<open>None\<close> for an invalid date, and
  \<^verbatim>\<open>eduDate < threeYearsAgo\<close> is false when either date is invalid.
\<close>

definition eduDate :: "env \<Rightarrow> string \<Rightarrow> int option" where
  "eduDate env eduDateStr =
     (case iso_year eduDateStr of
        None \<Rightarrow> dateParse env (eduDateStr @ ''-01'')
      | Some (y, rest) \<Rightarrow>
          if rest = [] then timeClip (days_from_civil y 1 1 * msPerDay)
          else
            (case rest of
               [h, e, f] \<Rightarrow>
                 if h = CHR ''-'' \<and> is_digit e \<and> is_digit f then
                   (case parse_nat 10 [e, f] of
                      None \<Rightarrow> None
                    | Some m \<Rightarrow>
                        if 1 \<le> m \<and> m \<le> 12
                        then timeClip (days_from_civil y (int m) 1 * msPerDay)
                        else None)
                 else dateParse env (eduDateStr @ ''-01'')
             | _ \<Rightarrow> dateParse env (eduDateStr @ ''-01'')))"

definition graduated :: "env \<Rightarrow> string \<Rightarrow> bool" where
  "graduated env eduDateStr =
     (case eduDate env eduDateStr of
        None \<Rightarrow> False
      | Some t \<Rightarrow>
          (case threeYearsAgo env of
             None \<Rightarrow> False
           | Some limit \<Rightarrow> t < limit))"

definition educationRightText :: "env \<Rightarrow> jsobj \<Rightarrow> string" where
  "educationRightText env edu =
     (case fld edu ''date'' of
        None \<Rightarrow> []
      | Some eduDateStr \<Rightarrow>
          if eduDateStr = [] then []
          else if graduated env eduDateStr then ''Status - Graduated''
          else formatDate eduDateStr)"

text \<open>Lines 300-309: the left text of a record that is not a certificate.\<close>

definition educationLeftText :: "jsobj \<Rightarrow> string" where
  "educationLeftText edu =
     (let locationText =
            (if truthy (fld edu ''city'') \<and> truthy (fld edu ''state'')
             then '', '' @ template (fld edu ''city'') @ '', '' @ template (fld edu ''state'')
             else if truthy (fld edu ''city'') then '', '' @ template (fld edu ''city'')
             else if truthy (fld edu ''state'') then '', '' @ template (fld edu ''state'')
             else [])
      in bullet @ '' '' @ template (fld edu ''degreeType'') @ '' in ''
         @ template (fld edu ''category'') @ '' | '' @ template (fld edu ''name'')
         @ locationText)"

text \<open>Lines 295-333: one education record, and the page break after it.\<close>

definition renderEducation :: "env \<Rightarrow> jsobj \<Rightarrow> pdf \<Rightarrow> pdf" where
  "renderEducation env edu st =
     (let st1 =
            (if fld edu ''degreeType'' = Some ''Certificate'' then
               emit (Text (Str (bullet @ '' '' @ template (fld edu ''name'')))
                       (margin + 5) (ypos st) AlignLeft) st
             else
               (let leftText = educationLeftText edu;
                    rightText = educationRightText env edu;
                    st' = emit (Text (Str leftText) (margin + 5) (ypos st) AlignLeft) st
                in if rightText \<noteq> [] then
                     emit (Text (Str rightText) (pageWidth env - margin) (ypos st) AlignRight) st'
                   else st'));
          st2 = advance sectionLineHeight st1
      in if 280 < ypos st2 then (emit AddPage st2)\<lparr>ypos := 20\<rparr> else st2)"

text \<open>Lines 272-333: the section settings, the heading and the sorted records.\<close>

definition drawEducation :: "env \<Rightarrow> resume \<Rightarrow> pdf \<Rightarrow> pdf" where
  "drawEducation env resume st =
     (let st1 = advance 5 st;
          st2 = emit (SetFontSize sectionFontSize) st1;
          st3 = emit (SetTextColor 0 0 0) st2;
          st4 = emit (SetFont ''helvetica'' ''bold'') st3;
          st5 = emit (Text (Str ''Education and Certification'') margin (ypos st4) AlignLeft) st4;
          st6 = advance sectionLineHeight st5;
          st7 = emit (SetFont ''helvetica'' ''normal'') st6
      in foldl (\<lambda>s edu. renderEducation env edu s) st7 (sortedEducation env resume))"

text \<open>Lines 399-403: the right-aligned date range of an experience entry.\<close>

definition experienceRightText :: "jsobj \<Rightarrow> string" where
  "experienceRightText entry =
     (let start = or_else (fld entry ''startDate'') [];
          endDate = or_else (fld entry ''endDate'') ''Present'';
          formattedStart = formatDate start;
          formattedEnd = formatDate endDate
      in if formattedStart \<noteq> [] then formattedStart @ '' - '' @ formattedEnd
         else formattedEnd)"

text \<open>Lines 365-412: the heading line of an experience entry.\<close>

definition experienceHeading :: "env \<Rightarrow> jsobj \<Rightarrow> pdf \<Rightarrow> pdf" where
  "experienceHeading env entry st =
     (let st0 = emit (SetFont ''helvetica'' ''italic'') st;
          title = or_else (fld entry ''title'') [];
          company = or_else (fld entry ''company'') [];
          location = or_else (fld entry ''location'') [];
          url = or_else (fld entry ''url'') [];
          currentX = margin;
          (currentX1, st5) =
            (if title \<noteq> [] then
               (let st1 = (if url \<noteq> [] then emit (SetTextColor 0 0 255) st0 else st0);
                    st2 = emit (Text (Str title) currentX (ypos st) AlignLeft) st1;
                    titleWidth = getTextWidth env (calls st2) title;
                    st3 = emit (GetTextWidth title) st2;
                    st4 = (if url \<noteq> [] then
                             emit (SetDrawColor 0 0 0)
                               (emit (SetTextColor 0 0 0)
                                 (emit (Line currentX (ypos st + 0.5) (currentX + titleWidth)
                                          (ypos st + 0.5))
                                   (emit (SetDrawColor 0 0 255)
                                     (emit (Link currentX (ypos st - 4) titleWidth 5 url) st3))))
                           else st3)
                in (currentX + titleWidth, st4))
             else (currentX, st0));
          remainingParts = (if company \<noteq> [] then [company] else [])
                           @ (if location \<noteq> [] then [location] else []);
          st6 = (if remainingParts \<noteq> [] then
                   emit (Text (Str ((if title \<noteq> [] then '', '' else [])
                                    @ join '', '' remainingParts))
                           currentX1 (ypos st) AlignLeft) st5
                 else st5);
          st7 = emit (Text (Str (experienceRightText entry)) (pageWidth env - margin) (ypos st)
                        AlignRight) st6;
          st8 = advance sectionLineHeight st7;
          st9 = (if url \<noteq> [] then advance 1 st8 else st8)
      in emit (SetFont ''helvetica'' ''normal'') st9)"

text \<open>Lines 415-425: the bullets of an entry, before the cut to eight.\<close>

definition experienceBullets :: "jsobj \<Rightarrow> string list" where
  "experienceBullets entry =
     (case fld entry ''summary'' of
        None \<Rightarrow> []
      | Some s \<Rightarrow> if js_trim s = [] then [] else [js_trim s])
     @ (case fld entry ''details'' of
          None \<Rightarrow> []
        | Some d \<Rightarrow>
            if d = [] then []
            else filter (\<lambda>s. 0 < length s) (map js_trim (split_on CHR 0x0A d)))"

definition MAX_NUMBER_OF_BULLETS_TO_DISPLAY :: nat where
  "MAX_NUMBER_OF_BULLETS_TO_DISPLAY = 8"

text \<open>Lines 428-437: one bullet, wrapped, and the page break after it.\<close>

definition drawBullet :: "env \<Rightarrow> string \<Rightarrow> pdf \<Rightarrow> pdf" where
  "drawBullet env b st =
     (let splitBullet = splitTextToSize env (calls st) (bullet @ '' '' @ b) (contentWidth env - 5);
          st1 = emit (SplitTextToSize (bullet @ '' '' @ b) (contentWidth env - 5)) st;
          st2 = emit (Text (Lines splitBullet) (margin + 5) (ypos st1) AlignLeft) st1;
          st3 = advance (of_nat (length splitBullet) * sectionLineHeight * 1.2) st2
      in if 280 < ypos st3 then
           emit (SetFontSize sectionFontSize) ((emit AddPage st3)\<lparr>ypos := 20\<rparr>)
         else st3)"

text \<open>Lines 439-444: the gap after an entry, and the page break after it.\<close>

definition entryGap :: "pdf \<Rightarrow> pdf" where
  "entryGap st =
     (let st1 = advance (sectionLineHeight / 1.5) st
      in if 280 < ypos st1 then
           emit (SetFontSize sectionFontSize) ((emit AddPage st1)\<lparr>ypos := 20\<rparr>)
         else st1)"

text \<open>Lines 363-445: one experience entry.\<close>

definition renderExperience :: "env \<Rightarrow> jsobj \<Rightarrow> pdf \<Rightarrow> pdf" where
  "renderExperience env entry st =
     entryGap
       (foldl (\<lambda>s b. drawBullet env b s) (experienceHeading env entry st)
          (take MAX_NUMBER_OF_BULLETS_TO_DISPLAY (experienceBullets entry)))"

text \<open>Lines 336-445: the heading of the section and the sorted entries.\<close>

definition drawExperience :: "env \<Rightarrow> resume \<Rightarrow> pdf \<Rightarrow> pdf" where
  "drawExperience env resume st =
     (let st1 = advance 5 st;
          st2 = emit (SetFont ''helvetica'' ''bold'') st1;
          st3 = emit (Text (Str ''Work History/Projects/Internships'') margin (ypos st2)
                        AlignLeft) st2;
          st4 = advance sectionLineHeight st3
      in foldl (\<lambda>s entry. renderExperience env entry s) st4 (sortedExperience env resume))"

text \<open>The whole function: a new document, the cursor at 20.\<close>

definition generatePdf :: "env \<Rightarrow> resume \<Rightarrow> pdf" where
  "generatePdf env resume =
     drawExperience env resume
       (drawEducation env resume
          (drawAdditionalText env resume
             (drawContacts env resume
                (drawName env resume \<lparr>ypos = 20, calls = []\<rparr>))))"

text \<open>What a list of calls shows: the right-aligned texts, the wrapping requests, the
  wrapped texts drawn, and whether a link was drawn.\<close>

fun right_texts :: "call list \<Rightarrow> string list" where
  "right_texts [] = []"
| "right_texts (Text (Str t) x y AlignRight # cs) = t # right_texts cs"
| "right_texts (c # cs) = right_texts cs"





fun links :: "call list \<Rightarrow> string list" where
  "links [] = []"
| "links (Link x y w h u # cs) = u # links cs"
| "links (c # cs) = links cs"

text \<open>An environment to run the layout in: an A4 page, every character 2 mm wide, no
  wrapping, the clock at 1 January 2025, and UTC as the time zone.\<close>

definition env0 :: env where
  "env0 =
     \<lparr>pageWidth = 210,
      getTextWidth = (\<lambda>h s. 2 * of_nat (length s)),
      splitTextToSize = (\<lambda>h s w. [s]),
      localeCompare = lex_compare,
      dateParse = (\<lambda>s. None),
      now = first_of_month_utc 2025 1,
      now2 = first_of_month_utc 2025 1,
      localTZA = (\<lambda>t isUTC. 0)\<rparr>"

section \<open>Example documents\<close>

text \<open>Six experience entries, out of order, two of them with equal keys.\<close>

definition entry_A :: jsobj where
  "entry_A = [(''title'', ''A''), (''category'', ''Project''), (''startDate'', ''2020-01'')]"
definition entry_B :: jsobj where
  "entry_B = [(''title'', ''B''), (''category'', ''Work Experience''), (''startDate'', '''')]"
definition entry_C :: jsobj where
  "entry_C = [(''title'', ''C''), (''category'', ''Work Experience''), (''startDate'', ''2021-03'')]"
definition entry_D :: jsobj where
  "entry_D = [(''title'', ''D''), (''category'', ''Volunteer'')]"
definition entry_E :: jsobj where
  "entry_E = [(''title'', ''E''), (''category'', ''Work Experience''), (''startDate'', ''2021-03'')]"
definition entry_F :: jsobj where
  "entry_F = [(''title'', ''F''), (''category'', ''Work Experience'')]"
definition unsorted_resume :: resume where
  "unsorted_resume =
     initial_resume\<lparr>experience := [entry_A, entry_B, entry_C, entry_D, entry_E, entry_F]\<rparr>"

text \<open>A document of the schema, exported by an older version of the application.\<close>

definition old_document :: json_resume where
  "old_document =
     \<lparr>json_version = Some ''0.9.0'', json_name = Some ''Jane Doe'',
      json_email = Some ''jane@x.com'', json_phone = Some ''555-1234'',
      json_additionalText = Some [],
      json_contacts = Some [[(''name'', ''GitHub''), (''url'', ''https://github.com/jane'')]],
      json_education = Some [[(''degreeType'', ''B.S.''), (''name'', ''State U''),
                              (''category'', ''CS''), (''city'', ''Troy''), (''state'', ''NY''),
                              (''date'', ''2019-05'')]],
      json_experience = Some [[(''title'', ''Engineer''), (''company'', ''Acme''),
                               (''startDate'', ''2020-01''), (''endDate'', []),
                               (''category'', ''Work Experience''),
                               (''details'', ''Did X'' @ [CHR 0x0A] @ ''Did Y'')]],
      json_tags = Some [\<lparr>tag_string = ''sql'', isRegex = False\<rparr>]\<rparr>"

definition st0 :: pdf where
  "st0 = \<lparr>ypos = 40, calls = []\<rparr>"



text \<open>
  A resume of 67 certificates, enough to pass 280 mm in the education section, and the
  calls that matter at a page break: \<^verbatim>\<open>addPage\<close> and \<^verbatim>\<open>setFontSize\<close>.
\<close>

definition certificate :: jsobj where
  "certificate = [(''degreeType'', ''Certificate''), (''name'', ''A'')]"

definition many_certificates :: resume where
  "many_certificates = initial_resume\<lparr>education := replicate 67 certificate\<rparr>"

fun page_calls :: "call list \<Rightarrow> call list" where
  "page_calls [] = []"
| "page_calls (AddPage # cs) = AddPage # page_calls cs"
| "page_calls (SetFontSize s # cs) = SetFontSize s # page_calls cs"
| "page_calls (c # cs) = page_calls cs"

text \<open>
  The sparsest resume; an entry with an empty start date; an entry with a link and no
  title; an education record with only its degree type.
\<close>

definition empty_resume :: resume where
  "empty_resume =
     \<lparr>version = None, name = None, email = None, phone = None, additionalText = None,
      contacts = [], education = [], experience = [], tags = []\<rparr>"

definition undated_start :: jsobj where
  "undated_start = [(''title'', ''Developer''), (''startDate'', []), (''endDate'', ''2021-06'')]"

definition untitled_link :: jsobj where
  "untitled_link = [(''company'', ''Acme''), (''url'', ''https://acme.example'')]"

definition bare_degree :: jsobj where
  "bare_degree = [(''degreeType'', ''B.S.'')]"

text \<open>
  Two entries whose first has the name of a member of \<^verbatim>\<open>Object.prototype\<close> as its
  category; an education record dated by a year alone; and an environment whose clock
  reads noon of 29 February 2024, two hours east of UTC.
\<close>

definition entry_inherited :: jsobj where
  "entry_inherited = [(''title'', ''Hobby''), (''category'', ''constructor'')]"

definition entry_work :: jsobj where
  "entry_work = [(''title'', ''Engineer''), (''category'', ''Work Experience'')]"

definition inherited_resume :: resume where
  "inherited_resume = initial_resume\<lparr>experience := [entry_inherited, entry_work]\<rparr>"




section \<open>Lemmas on numbers and dates\<close>

lemma digit_base_digit_char: "n < 10 \<Longrightarrow> digit_base 10 (digit_char n) = Some n"
proof (cases "n < 5")
  case True
  then have "n = 0 \<or> n = 1 \<or> n = 2 \<or> n = 3 \<or> n = 4"
    by arith
  then show ?thesis
    by (elim disjE) (simp_all add: digit_base_def hex_digit_def digit_char_def)
next
  case False
  assume "n < 10"
  with False have "n = 5 \<or> n = 6 \<or> n = 7 \<or> n = 8 \<or> n = 9"
    by arith
  then show ?thesis
    by (elim disjE) (simp_all add: digit_base_def hex_digit_def digit_char_def)
qed

lemma is_digit_digit_char: "is_digit (digit_char n)"
proof -
  have "digit_char n = digit_char (n mod 10)" by (simp add: digit_char_def)
  moreover have "digit_base 10 (digit_char (n mod 10)) = Some (n mod 10)"
    by (rule digit_base_digit_char) simp
  ultimately show ?thesis by (simp add: is_digit_def)
qed

lemma digits_base_append:
  "digits_base b (xs @ ys) acc =
     (case digits_base b xs acc of None \<Rightarrow> None | Some a \<Rightarrow> digits_base b ys a)"
  by (induction xs arbitrary: acc) (auto split: option.splits)

lemma digits_base_string_of_nat:
  "digits_base 10 (string_of_nat n) acc = Some (acc * 10 ^ length (string_of_nat n) + n)"
proof (induction n arbitrary: acc rule: string_of_nat.induct)
  case (1 n)
  show ?case
  proof (cases "n < 10")
    case True
    then show ?thesis
      by (simp add: string_of_nat.simps [of n] digit_base_digit_char)
  next
    case False
    have d: "digit_base 10 (digit_char (n mod 10)) = Some (n mod 10)"
      by (rule digit_base_digit_char) simp
    from False have s: "string_of_nat n = string_of_nat (n div 10) @ [digit_char (n mod 10)]"
      by (simp add: string_of_nat.simps [of n])
    show ?thesis
      using False "1.IH" [of acc] d
      by (simp add: s digits_base_append algebra_simps)
  qed
qed

lemma string_of_nat_not_Nil: "string_of_nat n \<noteq> []"
  by (simp add: string_of_nat.simps [of n])

lemma string_of_nat_digits: "list_all is_digit (string_of_nat n)"
proof (induction n rule: string_of_nat.induct)
  case (1 n)
  then show ?case
    by (cases "n < 10") (simp_all add: string_of_nat.simps [of n] is_digit_digit_char)
qed

lemma parse_nat_string_of_nat: "parse_nat 10 (string_of_nat n) = Some n"
  by (simp add: parse_nat_def string_of_nat_not_Nil digits_base_string_of_nat)

lemma string_of_nat_small: "n < 10 \<Longrightarrow> string_of_nat n = [digit_char n]"
  by (simp add: string_of_nat.simps [of n])

lemma string_of_nat_large:
  "\<not> n < 10 \<Longrightarrow> string_of_nat n = string_of_nat (n div 10) @ [digit_char (n mod 10)]"
  by (simp add: string_of_nat.simps [of n])

lemma length_string_of_nat_4: "1000 \<le> n \<Longrightarrow> n \<le> 9999 \<Longrightarrow> length (string_of_nat n) = 4"
proof -
  assume a: "1000 \<le> n" "n \<le> 9999"
  then have "\<not> n < 10" "\<not> n div 10 < 10" "\<not> n div 10 div 10 < 10" "n div 10 div 10 div 10 < 10"
    by arith+
  then show ?thesis
    by (simp add: string_of_nat_large string_of_nat_small)
qed


lemma is_digit_iff: "is_digit c = (48 \<le> (of_char c :: nat) \<and> (of_char c :: nat) \<le> 57)"
  by (auto simp: is_digit_def digit_base_def hex_digit_def Let_def)

lemma leading_seq_None:
  "list_all (\<lambda>w. w = [] \<or> hd w \<noteq> c) seqs \<Longrightarrow> leading_seq seqs (c # cs) = None"
proof (induction seqs)
  case Nil
  then show ?case by (simp add: leading_seq_def)
next
  case (Cons w seqs)
  then show ?case by (cases w) (auto simp: leading_seq_def)
qed

lemma digit_not_whitespace:
  "is_digit c \<Longrightarrow> list_all (\<lambda>w. w = [] \<or> hd w \<noteq> c) whitespace_seqs"
  unfolding whitespace_seqs_def is_digit_iff by auto

lemma digit_not_whitespace_rev:
  "is_digit c \<Longrightarrow> list_all (\<lambda>w. w = [] \<or> hd w \<noteq> c) (map rev whitespace_seqs)"
  unfolding whitespace_seqs_def is_digit_iff by auto

lemma leading_seq_digit: "is_digit c \<Longrightarrow> leading_seq whitespace_seqs (c # cs) = None"
  by (rule leading_seq_None [OF digit_not_whitespace])

lemma leading_seq_rev_digit:
  "is_digit c \<Longrightarrow> leading_seq (map rev whitespace_seqs) (c # cs) = None"
  by (rule leading_seq_None [OF digit_not_whitespace_rev])

lemma js_trim_digits:
  assumes "ds \<noteq> []" and "list_all is_digit ds"
  shows "js_trim ds = ds"
proof -
  from assms obtain c cs where ds: "ds = c # cs" and c: "is_digit c"
    by (cases ds) auto
  from assms obtain d es where rv: "rev ds = d # es" and d: "is_digit d"
    by (cases "rev ds") (auto simp: list_all_iff)
  have "trimStart ds = ds"
    by (simp add: trimStart_def ds leading_seq_digit [OF c])
  moreover have "trimEnd ds = ds"
  proof -
    have "strip_leading (map rev whitespace_seqs) (rev ds) = rev ds"
      by (simp add: rv leading_seq_rev_digit [OF d])
    then show ?thesis by (simp add: trimEnd_def)
  qed
  ultimately show ?thesis by (simp add: js_trim_def)
qed

lemma digits_base_Some_digits: "digits_base 10 ds acc = Some n \<Longrightarrow> list_all is_digit ds"
  by (induction ds arbitrary: acc) (auto simp: is_digit_def split: option.splits)

lemma parse_nat_Some_digits: "parse_nat 10 ds = Some n \<Longrightarrow> ds \<noteq> [] \<and> list_all is_digit ds"
  by (auto simp: parse_nat_def dest: digits_base_Some_digits split: if_splits)

lemma digit_not_letter:
  assumes "is_digit c"
  shows "c \<noteq> CHR ''x''" "c \<noteq> CHR ''X''" "c \<noteq> CHR ''o''" "c \<noteq> CHR ''O''"
    "c \<noteq> CHR ''b''" "c \<noteq> CHR ''B''" "c \<noteq> CHR ''+''" "c \<noteq> CHR ''-''" "c \<noteq> CHR ''I''"
  using assms unfolding is_digit_iff by auto

lemma nonDecimalLiteral_digits: "list_all is_digit ds \<Longrightarrow> nonDecimalLiteral ds = None"
proof (cases ds)
  case Nil
  then show ?thesis by (simp add: nonDecimalLiteral_def)
next
  case (Cons c0 r)
  assume dg: "list_all is_digit ds"
  show ?thesis
  proof (cases r)
    case Nil
    with Cons show ?thesis by (simp add: nonDecimalLiteral_def)
  next
    case (Cons c1 r')
    with dg \<open>ds = c0 # r\<close> have "is_digit c1" by simp
    from digit_not_letter [OF this] show ?thesis
      by (simp add: nonDecimalLiteral_def \<open>ds = c0 # r\<close> Cons)
  qed
qed

lemma round_half_even_of_int: "round_half_even (of_int z) = z"
  by (simp add: round_half_even_def)

lemma find_sorted_le:
  "find P xs = Some p \<Longrightarrow> sorted xs \<Longrightarrow> k \<in> set xs \<Longrightarrow> P k \<Longrightarrow> p \<le> (k :: int)"
proof (induction xs)
  case Nil
  then show ?case by simp
next
  case (Cons x xs)
  show ?case
  proof (cases "P x")
    case True
    with Cons.prems have "p = x" by simp
    with Cons.prems show ?thesis by auto
  next
    case False
    with Cons.prems have "find P xs = Some p" "sorted xs" "k \<in> set xs" by auto
    then show ?thesis using Cons.IH Cons.prems(4) by blast
  qed
qed

lemma round_double_pos_of_nat:
  assumes "n < 2 ^ 53"
  shows "round_double_pos (of_nat n) = Num (of_nat n)"
proof -
  define P where "P = (\<lambda>p. (of_nat n :: rat) < 2 ^ 53 * pow2 p)"
  have "(of_nat n :: rat) < of_nat (2 ^ 53)"
    using assms by (simp only: of_nat_less_iff)
  then have P0: "P 0" by (simp add: P_def pow2_def)
  have mem: "(0 :: int) \<in> set [- 1074 .. 971]" by simp
  have "find P [- 1074 .. 971] \<noteq> None"
    using P0 mem by (simp only: find_None_iff) blast
  then obtain p where p: "find P [- 1074 .. 971] = Some p" by blast
  have le: "p \<le> 0"
    using find_sorted_le [OF p sorted_upto mem P0] .
  have pw: "pow2 p = 1 / 2 ^ nat (- p)"
    using le by (cases "p = 0") (simp_all add: pow2_def)
  have q: "(of_nat n :: rat) / pow2 p = of_int (int n * 2 ^ nat (- p))"
    by (simp add: pw)
  have r: "(of_int (round_half_even (of_nat n / pow2 p)) :: rat) * pow2 p = of_nat n"
    by (simp only: q round_half_even_of_int) (simp add: pw)
  have "(of_nat n :: rat) < of_nat (2 ^ 1024)"
    using assms by (simp only: of_nat_less_iff) (rule less_trans, assumption, simp)
  then have small: "\<not> (2 ^ 1024 \<le> (of_nat n :: rat))" by simp
  show ?thesis
    unfolding round_double_pos_def
    using p small by (simp only: P_def [symmetric] option.case Let_def r if_False)
qed

lemma round_double_of_nat: "n < 2 ^ 53 \<Longrightarrow> round_double (of_nat n) = Num (of_nat n)"
  by (simp add: round_double_def round_double_pos_of_nat)

lemma unsignedDecimal_digits:
  assumes "parse_nat 10 ds = Some n" "n < 2 ^ 53"
  shows "unsignedDecimal ds = Num (of_nat n)"
proof -
  from assms have ne: "ds \<noteq> []" and dg: "list_all is_digit ds"
    using parse_nat_Some_digits by blast+
  have inf: "ds \<noteq> ''Infinity''"
    using dg digit_not_letter(9) by (cases ds) auto
  have tw: "takeWhile is_digit ds = ds" "dropWhile is_digit ds = []"
    using dg by (simp_all add: list_all_iff)
  show ?thesis
    using assms(1) ne inf
    by (simp add: unsignedDecimal_def tw exponentPart_def scale10_def
        round_double_of_nat [OF assms(2)])
qed

lemma js_Number_digits:
  assumes "parse_nat 10 ds = Some n" "n < 2 ^ 53"
  shows "js_Number ds = Num (of_nat n)"
proof -
  from assms have ne: "ds \<noteq> []" and dg: "list_all is_digit ds"
    using parse_nat_Some_digits by blast+
  then obtain c cs where ds: "ds = c # cs" and c: "is_digit c"
    by (cases ds) auto
  from c have sign: "c \<noteq> CHR ''+''" "c \<noteq> CHR ''-''"
    by (rule digit_not_letter)+
  have "strDecimalLiteral ds = unsignedDecimal ds"
    using sign by (simp add: strDecimalLiteral_def ds)
  then show ?thesis
    using ne
    by (simp add: js_Number_def js_trim_digits [OF ne dg] nonDecimalLiteral_digits [OF dg]
        unsignedDecimal_digits [OF assms])
qed

lemma minus_one_of_nat:
  assumes "1 \<le> m" "m < 2 ^ 53"
  shows "minus_one (Num (of_nat m)) = Num (of_nat (m - 1))"
proof -
  have "(of_nat m :: rat) - 1 = of_nat (m - 1)"
    using assms(1) by (simp add: of_nat_diff)
  moreover have "m - 1 < 2 ^ 53" using assms(2) by arith
  ultimately show ?thesis
    by (simp only: minus_one_def jsnum.case round_double_of_nat)
qed

lemma split_on_no_sep: "sep \<notin> set xs \<Longrightarrow> split_on sep xs = [xs]"
  by (induction xs) auto

lemma split_on_one_sep:
  "sep \<notin> set xs \<Longrightarrow> sep \<notin> set ys \<Longrightarrow> split_on sep (xs @ sep # ys) = [xs, ys]"
  by (induction xs) (auto simp: split_on_no_sep)

lemma digits_no_hyphen: "list_all is_digit ds \<Longrightarrow> CHR ''-'' \<notin> set ds"
  using digit_not_letter(8) by (auto simp: list_all_iff)

lemma formatDate_split:
  assumes "s \<noteq> []" "s \<noteq> ''Present''" "split_on CHR ''-'' s = [ys, ms]"
  shows "formatDate s =
           (if falsy (js_Number ys) \<or> falsy (js_Number ms) then s
            else toLocaleDateString (new_Date (js_Number ys) (minus_one (js_Number ms))))"
  using assms by (simp add: formatDate_def)

lemma hyphenated_not_Present: "CHR ''-'' \<in> set s \<Longrightarrow> s \<noteq> ''Present''"
proof
  assume "CHR ''-'' \<in> set s" "s = ''Present''"
  then have "CHR ''-'' \<in> set ''Present''" by (simp only:)
  then show False by simp
qed

lemma formatDate_numeric:
  assumes y: "parse_nat 10 ys = Some y" and m: "parse_nat 10 ms = Some m"
    and small: "y < 2 ^ 53" "m < 2 ^ 53"
  shows "formatDate (ys @ ''-'' @ ms) =
           (if y = 0 \<or> m = 0 then ys @ ''-'' @ ms
            else toLocaleDateString (new_Date (Num (of_nat y)) (Num (of_nat (m - 1)))))"
proof -
  define s where "s = ys @ ''-'' @ ms"
  have dy: "list_all is_digit ys" and dm: "list_all is_digit ms"
    using y m parse_nat_Some_digits by blast+
  have sp: "split_on CHR ''-'' s = [ys, ms]"
    using split_on_one_sep [OF digits_no_hyphen [OF dy] digits_no_hyphen [OF dm]]
    by (simp add: s_def)
  have ne: "s \<noteq> []" by (simp add: s_def)
  have np: "s \<noteq> ''Present''"
    by (rule hyphenated_not_Present) (simp add: s_def)
  have "formatDate s =
          (if y = 0 \<or> m = 0 then s
           else toLocaleDateString (new_Date (Num (of_nat y)) (Num (of_nat (m - 1)))))"
  proof (cases "m = 0")
    case True
    then show ?thesis
      by (simp add: formatDate_split [OF ne np sp] js_Number_digits [OF m small(2)] falsy_def)
  next
    case False
    then have "1 \<le> m" by simp
    from minus_one_of_nat [OF this small(2)] False show ?thesis
      by (simp add: formatDate_split [OF ne np sp] js_Number_digits [OF y small(1)]
          js_Number_digits [OF m small(2)] falsy_def)
  qed
  then show ?thesis by (simp only: s_def)
qed

lemma formatDate_zero_month:
  assumes y: "parse_nat 10 ys = Some y"
  shows "formatDate (ys @ ''-00'') = ys @ ''-00''"
proof -
  define s where "s = ys @ ''-'' @ ''00''"
  have dy: "list_all is_digit ys"
    using y parse_nat_Some_digits by blast
  have dm: "list_all is_digit ''00''"
    by (simp add: is_digit_def digit_base_def hex_digit_def)
  have sp: "split_on CHR ''-'' s = [ys, ''00'']"
    using split_on_one_sep [OF digits_no_hyphen [OF dy] digits_no_hyphen [OF dm]]
    by (simp add: s_def)
  have ne: "s \<noteq> []" by (simp add: s_def)
  have np: "s \<noteq> ''Present''"
    by (rule hyphenated_not_Present) (simp add: s_def)
  have "parse_nat 10 ''00'' = Some 0"
    by (simp add: parse_nat_def digit_base_def hex_digit_def)
  then have "js_Number ''00'' = Num (of_nat 0)"
    by (rule js_Number_digits) simp
  then have "formatDate s = s"
    by (simp add: formatDate_split [OF ne np sp] falsy_def)
  then show ?thesis by (simp add: s_def)
qed

lemma parse_nat_pad2: "m < 100 \<Longrightarrow> parse_nat 10 (pad2 m) = Some m"
proof -
  assume "m < 100"
  then have "m div 10 < 10" by arith
  then have "digit_base 10 (digit_char (m div 10)) = Some (m div 10)"
    by (rule digit_base_digit_char)
  moreover have "digit_base 10 (digit_char (m mod 10)) = Some (m mod 10)"
    by (rule digit_base_digit_char) simp
  ultimately show ?thesis
    by (simp add: parse_nat_def pad2_def)
qed

lemma trunc_of_nat: "trunc (of_nat n) = int n"
  by (simp add: trunc_def)

lemma new_Date_of_nat:
  assumes "100 \<le> y"
  shows "new_Date (Num (of_nat y)) (Num (of_nat k)) =
           (if in_range (int y + int (k div 12)) (k mod 12)
            then Some (int y + int (k div 12), k mod 12) else None)"
proof -
  have yr: "(if 0 \<le> int y \<and> int y \<le> 99 then 1900 + int y else int y) = int y"
    using assms by simp
  have dv: "int k div 12 = int (k div 12)"
    by (simp add: zdiv_int)
  have md: "nat (int k mod 12) = k mod 12"
    by (simp add: nat_mod_distrib)
  show ?thesis
    unfolding new_Date_def
    by (simp only: jsnum.case trunc_of_nat Let_def yr dv md)
qed

lemma new_Date_nat:
  assumes "100 \<le> y" "1 \<le> m"
  shows "new_Date (Num (of_nat y)) (Num (of_nat (m - 1))) =
           (if in_range (int y + int ((m - 1) div 12)) ((m - 1) mod 12)
            then Some (int y + int ((m - 1) div 12), (m - 1) mod 12) else None)"
  by (rule new_Date_of_nat [OF assms(1)])

lemma formatDate_valid:
  assumes "100 \<le> y" "y \<le> 9999" "1 \<le> m" "m \<le> 99"
  shows "formatDate (string_of_nat y @ ''-'' @ pad2 m) =
           month_abbr ! ((m - 1) mod 12) @ '' '' @ string_of_nat (y + (m - 1) div 12)"
proof -
  have m: "parse_nat 10 (pad2 m) = Some m"
    using assms by (simp add: parse_nat_pad2)
  have "(m - 1) div 12 \<le> 8" using assms by arith
  then have r: "in_range (int y + int ((m - 1) div 12)) ((m - 1) mod 12)"
    using assms by (simp add: in_range_def)
  have "y < 2 ^ 53" "m < 2 ^ 53" using assms by simp_all
  then have "formatDate (string_of_nat y @ ''-'' @ pad2 m) =
          toLocaleDateString (new_Date (Num (of_nat y)) (Num (of_nat (m - 1))))"
    using assms formatDate_numeric [OF parse_nat_string_of_nat m] by simp
  also have "\<dots> = month_abbr ! ((m - 1) mod 12) @ '' '' @ year_text (int y + int ((m - 1) div 12))"
  proof -
    have "new_Date (Num (of_nat y)) (Num (of_nat (m - 1))) =
            Some (int y + int ((m - 1) div 12), (m - 1) mod 12)"
      using r by (simp only: new_Date_nat [OF assms(1) assms(3)] if_True)
    then show ?thesis
      by (simp only: toLocaleDateString_def option.case prod.case)
  qed
  also have "year_text (int y + int ((m - 1) div 12)) = string_of_nat (y + (m - 1) div 12)"
    using assms by (simp add: year_text_def nat_add_distrib)
  finally show ?thesis .
qed

lemma js_trim_Nil: "js_trim [] = []"
  by (simp add: js_trim_def trimStart_def trimEnd_def leading_seq_def whitespace_seqs_def)

lemma js_Number_Nil: "js_Number [] = Num 0"
  by (simp add: js_Number_def js_trim_Nil)

lemma decimal_digits_4:
  "10 * (10 * (10 * (y div 1000) + y div 100 mod 10) + y div 10 mod 10) + y mod 10 = (y :: nat)"
proof -
  have e: "y div 100 = y div 10 div 10" "y div 1000 = y div 10 div 10 div 10"
    by (simp_all add: div_mult2_eq [symmetric])
  show ?thesis
    by (simp only: e mult_div_mod_eq)
qed

lemma parse_nat_pad4:
  assumes "y \<le> 9999"
  shows "parse_nat 10 (pad4 y) = Some y"
proof -
  have "y div 1000 < 10" using assms by simp
  then have a: "digit_base 10 (digit_char (y div 1000)) = Some (y div 1000)"
    by (rule digit_base_digit_char)
  have b: "digit_base 10 (digit_char (n mod 10)) = Some (n mod 10)" for n
    by (rule digit_base_digit_char) simp
  have "parse_nat 10 (pad4 y) =
          Some (10 * (10 * (10 * (y div 1000) + y div 100 mod 10) + y div 10 mod 10) + y mod 10)"
    by (simp add: parse_nat_def pad4_def a b)
  then show ?thesis
    by (simp only: decimal_digits_4)
qed

lemma string_of_nat_pad4:
  assumes "1000 \<le> y" "y \<le> 9999"
  shows "string_of_nat y = pad4 y"
proof -
  from assms have "\<not> y < 10" "\<not> y div 10 < 10" "\<not> y div 10 div 10 < 10"
    "y div 10 div 10 div 10 < 10"
    by simp_all
  moreover have "y div 10 div 10 = y div 100" "y div 10 div 10 div 10 = y div 1000"
    by (simp_all add: div_mult2_eq [symmetric])
  ultimately show ?thesis
    by (simp add: string_of_nat_large string_of_nat_small pad4_def)
qed

lemma formatDate_padded:
  assumes "100 \<le> y" "y \<le> 9999" "1 \<le> m" "m \<le> 99"
  shows "formatDate (pad4 y @ ''-'' @ pad2 m) =
           month_abbr ! ((m - 1) mod 12) @ '' '' @ string_of_nat (y + (m - 1) div 12)"
proof -
  have m: "parse_nat 10 (pad2 m) = Some m"
    using assms by (simp add: parse_nat_pad2)
  have y: "parse_nat 10 (pad4 y) = Some y"
    using assms by (simp add: parse_nat_pad4)
  have "(m - 1) div 12 \<le> 8" using assms by arith
  then have r: "in_range (int y + int ((m - 1) div 12)) ((m - 1) mod 12)"
    using assms by (simp add: in_range_def)
  have "y < 2 ^ 53" "m < 2 ^ 53" using assms by simp_all
  then have "formatDate (pad4 y @ ''-'' @ pad2 m) =
          toLocaleDateString (new_Date (Num (of_nat y)) (Num (of_nat (m - 1))))"
    using assms formatDate_numeric [OF y m] by simp
  also have "\<dots> = month_abbr ! ((m - 1) mod 12) @ '' '' @ year_text (int y + int ((m - 1) div 12))"
  proof -
    have "new_Date (Num (of_nat y)) (Num (of_nat (m - 1))) =
            Some (int y + int ((m - 1) div 12), (m - 1) mod 12)"
      using r by (simp only: new_Date_nat [OF assms(1) assms(3)] if_True)
    then show ?thesis
      by (simp only: toLocaleDateString_def option.case prod.case)
  qed
  also have "year_text (int y + int ((m - 1) div 12)) = string_of_nat (y + (m - 1) div 12)"
    using assms by (simp add: year_text_def nat_add_distrib)
  finally show ?thesis .
qed

section \<open>Lemmas on sorting\<close>

lemma mset_insert_sorted: "mset (insert_sorted cmp x ys) = add_mset x (mset ys)"
  by (induction ys) auto

lemma mset_js_sort: "mset (js_sort cmp xs) = mset xs"
  by (induction xs) (auto simp: js_sort_def mset_insert_sorted)

lemma set_insert_sorted: "set (insert_sorted cmp x ys) = insert x (set ys)"
  by (induction ys) auto

lemma set_js_sort: "set (js_sort cmp xs) = set xs"
  by (induction xs) (auto simp: js_sort_def set_insert_sorted)

lemma insert_sorted_cong:
  "\<forall>b \<in> set ys. c x b = c' x b \<Longrightarrow> insert_sorted c x ys = insert_sorted c' x ys"
  by (induction ys) auto

lemma js_sort_cong:
  "\<forall>a \<in> set xs. \<forall>b \<in> set xs. c a b = c' a b \<Longrightarrow> js_sort c xs = js_sort c' xs"
proof (induction xs)
  case Nil
  then show ?case by (simp add: js_sort_def)
next
  case (Cons x xs)
  then have ih: "js_sort c xs = js_sort c' xs" by simp
  have "insert_sorted c x (js_sort c' xs) = insert_sorted c' x (js_sort c' xs)"
    using Cons.prems by (intro insert_sorted_cong) (simp add: set_js_sort)
  then show ?case
    using ih by (simp add: js_sort_def)
qed

lemma consistent_less: "consistent c \<Longrightarrow> (c a b < 0) = (0 < c b a)"
  by (simp add: consistent_def)

lemma consistent_trans: "consistent c \<Longrightarrow> c a b \<le> 0 \<Longrightarrow> c b d \<le> 0 \<Longrightarrow> c a d \<le> 0"
  unfolding consistent_def by blast

lemma consistent_sym:
  assumes "consistent c" "c a b = 0"
  shows "c b a = 0"
proof -
  have "\<not> 0 < c b a"
    using consistent_less [OF assms(1), of a b] assms(2) by simp
  moreover have "\<not> c b a < 0"
    using consistent_less [OF assms(1), of b a] assms(2) by simp
  ultimately show ?thesis by simp
qed

lemma consistent_flip:
  assumes "consistent c" "0 < c a b"
  shows "c b a \<le> 0"
  using consistent_less [OF assms(1), of b a] assms(2) by simp

lemma consistent_equiv:
  assumes "consistent c" "c x k = 0" "c y k = 0"
  shows "c x y = 0"
proof -
  have ky: "c k y = 0"
    using assms(1,3) by (rule consistent_sym)
  have kx: "c k x = 0"
    using assms(1,2) by (rule consistent_sym)
  have 1: "c x y \<le> 0"
    using consistent_trans [OF assms(1), of x k y] assms(2) ky by simp
  have 2: "c y x \<le> 0"
    using consistent_trans [OF assms(1), of y k x] assms(3) kx by simp
  have "\<not> c x y < 0"
    using consistent_less [OF assms(1), of x y] 2 by simp
  with 1 show ?thesis by simp
qed

lemma sorted_insert_sorted:
  assumes "consistent c"
  shows "sorted_wrt (\<lambda>a b. c a b \<le> 0) ys \<Longrightarrow> sorted_wrt (\<lambda>a b. c a b \<le> 0) (insert_sorted c x ys)"
proof (induction ys)
  case Nil
  then show ?case by simp
next
  case (Cons y ys)
  show ?case
  proof (cases "c x y \<le> 0")
    case True
    then have "\<forall>z \<in> set ys. c x z \<le> 0"
      using Cons.prems consistent_trans [OF assms] by auto
    with True Cons.prems show ?thesis by simp
  next
    case False
    then have "c y x \<le> 0"
      using consistent_flip [OF assms] by simp
    with False Cons show ?thesis
      by (auto simp: set_insert_sorted)
  qed
qed

lemma sorted_js_sort: "consistent c \<Longrightarrow> sorted_wrt (\<lambda>a b. c a b \<le> 0) (js_sort c xs)"
  by (induction xs) (auto simp: js_sort_def sorted_insert_sorted)

lemma filter_insert_sorted:
  assumes "consistent c"
  shows "filter (\<lambda>z. c z k = 0) (insert_sorted c x ys) =
           (if c x k = 0 then x # filter (\<lambda>z. c z k = 0) ys else filter (\<lambda>z. c z k = 0) ys)"
proof (induction ys)
  case Nil
  then show ?case by simp
next
  case (Cons y ys)
  show ?case
  proof (cases "c x y \<le> 0")
    case True
    then show ?thesis by simp
  next
    case False
    then have "\<not> (c x k = 0 \<and> c y k = 0)"
      using consistent_equiv [OF assms, of x k y] by auto
    with False Cons show ?thesis by auto
  qed
qed

lemma js_sort_stable:
  "consistent c \<Longrightarrow> filter (\<lambda>z. c z k = 0) (js_sort c xs) = filter (\<lambda>z. c z k = 0) xs"
  by (induction xs) (auto simp: js_sort_def filter_insert_sorted)

lemma order_of_priority: "\<not> inherited_category a \<Longrightarrow> order_of a = Prio (priority a)"
  by (simp add: order_of_def priority_def inherited_category_def Let_def split: option.splits)

lemma compareExperience_keys:
  assumes "\<not> inherited_category a" "\<not> inherited_category b"
  shows "compareExperience env a b = compareKeys env a b"
  by (simp add: compareExperience_def compareKeys_def startDate_of_def
      order_of_priority [OF assms(1)] order_of_priority [OF assms(2)])

lemma consistent_compareKeys:
  assumes "consistent (localeCompare env)"
  shows "consistent (compareKeys env)"
proof -
  have r: "compareKeys env a a = 0" for a
    using assms by (simp add: compareKeys_def consistent_def)
  have l: "(compareKeys env a b < 0) = (0 < compareKeys env b a)" for a b
    using consistent_less [OF assms, of "startDate_of b" "startDate_of a"]
    by (auto simp: compareKeys_def)
  have t: "compareKeys env a d \<le> 0"
    if "compareKeys env a b \<le> 0" "compareKeys env b d \<le> 0" for a b d
  proof (cases "priority a = priority b \<and> priority b = priority d")
    case True
    with that show ?thesis
      using consistent_trans [OF assms, of "startDate_of d" "startDate_of b" "startDate_of a"]
      by (simp add: compareKeys_def)
  next
    case False
    with that have "priority a < priority d"
      by (auto simp: compareKeys_def split: if_splits)
    then show ?thesis by (simp add: compareKeys_def)
  qed
  show ?thesis
    unfolding consistent_def using r l t by blast
qed

lemma in_order_compareKeys: "in_order env a b = (compareKeys env a b \<le> 0)"
  by (auto simp: in_order_def compareKeys_def)

lemma same_key_compareKeys: "same_key env k a = (compareKeys env a k = 0)"
  by (auto simp: same_key_def compareKeys_def)

lemma sortedExperience_keys:
  assumes "list_all (\<lambda>e. \<not> inherited_category e) (experience r)"
  shows "sortedExperience env r = js_sort (compareKeys env) (experience r)"
  unfolding sortedExperience_def
  using assms by (intro js_sort_cong) (simp add: list_all_iff compareExperience_keys)

lemma lex_compare_refl: "lex_compare a a = 0"
  by (induction a) auto

lemma lex_compare_less: "(lex_compare a b < 0) = (0 < lex_compare b a)"
  by (induction a b rule: lex_compare.induct) auto

lemma lex_compare_Cons_le:
  "(lex_compare (x # xs) (y # ys) \<le> 0) =
     ((of_char x :: nat) < of_char y \<or> ((of_char x :: nat) = of_char y \<and> lex_compare xs ys \<le> 0))"
  by auto

lemma lex_compare_trans:
  "lex_compare a b \<le> 0 \<Longrightarrow> lex_compare b d \<le> 0 \<Longrightarrow> lex_compare a d \<le> 0"
proof (induction a arbitrary: b d)
  case Nil
  then show ?case by (cases d) auto
next
  case (Cons x xs)
  from Cons.prems(1) obtain y ys where b: "b = y # ys"
    by (cases b) auto
  from Cons.prems(2) b obtain z zs where d: "d = z # zs"
    by (cases d) auto
  from Cons.prems(1) have 1:
    "(of_char x :: nat) < of_char y \<or> ((of_char x :: nat) = of_char y \<and> lex_compare xs ys \<le> 0)"
    unfolding b lex_compare_Cons_le .
  from Cons.prems(2) have 2:
    "(of_char y :: nat) < of_char z \<or> ((of_char y :: nat) = of_char z \<and> lex_compare ys zs \<le> 0)"
    unfolding b d lex_compare_Cons_le .
  have "(of_char x :: nat) < of_char z \<or> ((of_char x :: nat) = of_char z \<and> lex_compare xs zs \<le> 0)"
  proof (cases "(of_char x :: nat) = of_char y \<and> (of_char y :: nat) = of_char z")
    case True
    with 1 2 have "lex_compare xs ys \<le> 0" "lex_compare ys zs \<le> 0" by simp_all
    then have "lex_compare xs zs \<le> 0" by (rule Cons.IH)
    with True show ?thesis by simp
  next
    case False
    with 1 2 have "(of_char x :: nat) < of_char z" by linarith
    then show ?thesis by simp
  qed
  then show ?case
    unfolding d lex_compare_Cons_le .
qed

lemma consistent_lex_compare: "consistent lex_compare"
  unfolding consistent_def
  using lex_compare_refl lex_compare_less lex_compare_trans by blast

lemma empty_first_lex_compare: "empty_first lex_compare"
  unfolding empty_first_def
proof
  fix s show "lex_compare [] s \<le> 0" by (cases s) auto
qed

section \<open>The date formatter\<close>

lemmas number_eval = js_Number_def js_trim_def trimStart_def trimEnd_def leading_seq_def
  whitespace_seqs_def nonDecimalLiteral_def strDecimalLiteral_def unsignedDecimal_def
  exponentPart_def parse_nat_def digit_base_def hex_digit_def is_digit_def scale10_def

lemmas date_eval = falsy_def minus_one_def new_Date_def trunc_def in_range_def
  toLocaleDateString_def month_abbr_def year_text_def digit_char_def string_of_nat.simps pad2_def

lemma formatDate_empty: "formatDate [] = ''Present''"
  by (simp add: formatDate_def)

lemma formatDate_not_empty: "formatDate s \<noteq> []"
proof -
  have "toLocaleDateString d \<noteq> []" for d
    by (cases d) (auto simp: toLocaleDateString_def)
  then show ?thesis
    by (auto simp: formatDate_def split: list.splits)
qed

lemma formatDate_2021_06: "formatDate ''2021-06'' = ''Jun 2021''"
  using formatDate_valid [of 2021 6] by (simp add: date_eval)

text \<open>
  Claim C5, as the code has it. A date \<^verbatim>\<open>YYYY-MM\<close> whose year is 0100 to 9999 and whose
  month is 01 to 12 is formatted as the English month abbreviation, a space and the year
  in decimal without leading zeros, which is the four digits \<^verbatim>\<open>YYYY\<close> when the year is
  1000 or more. A non-empty input comes back unchanged when it has fewer than two
  components, or when its first or second component is empty, or is read by \<^verbatim>\<open>Number\<close>
  as \<^verbatim>\<open>NaN\<close> or as zero; \<^verbatim>\<open>Present\<close> comes back as \<^verbatim>\<open>Present\<close>. \<^verbatim>\<open>formatDate\<close> has
  no raising operation: \<^verbatim>\<open>split\<close>, \<^verbatim>\<open>Number\<close>, the \<^verbatim>\<open>Date\<close> constructor and
  \<^verbatim>\<open>toLocaleDateString\<close> with these constant arguments return for every string, and
  so does the model, a total function. (The years 0001 to 0099 are left out, and the
  empty input is claim C1.)
\<close>

theorem formatDate_contract:
  "(100 \<le> y \<and> y \<le> 9999 \<and> 1 \<le> m \<and> m \<le> 12 \<longrightarrow>
      formatDate (pad4 y @ ''-'' @ pad2 m) = month_abbr ! (m - 1) @ '' '' @ string_of_nat y
      \<and> (1000 \<le> y \<longrightarrow> string_of_nat y = pad4 y))
   \<and> (s \<noteq> [] \<and> (case split_on CHR ''-'' s of
                     [] \<Rightarrow> True
                   | [a] \<Rightarrow> True
                   | a # b # _ \<Rightarrow> a = [] \<or> b = [] \<or> falsy (js_Number a) \<or> falsy (js_Number b))
        \<longrightarrow> formatDate s = s)
   \<and> formatDate ''Present'' = ''Present''"
proof (intro conjI impI)
  assume a: "100 \<le> y \<and> y \<le> 9999 \<and> 1 \<le> m \<and> m \<le> 12"
  then have "(m - 1) mod 12 = m - 1" "(m - 1) div 12 = 0" by auto
  with a formatDate_padded [of y m]
  show "formatDate (pad4 y @ ''-'' @ pad2 m) = month_abbr ! (m - 1) @ '' '' @ string_of_nat y"
    by simp
  assume "1000 \<le> y"
  with a show "string_of_nat y = pad4 y"
    by (simp add: string_of_nat_pad4)
next
  have e: "falsy (js_Number [])"
    by (simp add: js_Number_Nil falsy_def)
  assume "s \<noteq> [] \<and> (case split_on CHR ''-'' s of
                     [] \<Rightarrow> True
                   | [a] \<Rightarrow> True
                   | a # b # _ \<Rightarrow> a = [] \<or> b = [] \<or> falsy (js_Number a) \<or> falsy (js_Number b))"
  then show "formatDate s = s"
    using e by (auto simp: formatDate_def split: list.splits)
next
  show "formatDate ''Present'' = ''Present''"
    by (simp add: formatDate_def)
qed

lemma js_Number_xx: "js_Number ''xx'' = NaN"
  by (simp add: number_eval)

theorem formatDate_contract_witness:
  "formatDate ''2021-06'' = ''Jun 2021'' \<and> formatDate ''0500-06'' = ''Jun 500''
   \<and> formatDate ''2021-xx'' = ''2021-xx'' \<and> formatDate ''2021-'' = ''2021-''
   \<and> formatDate ''-06'' = ''-06'' \<and> formatDate ''2021'' = ''2021''
   \<and> formatDate ''Present'' = ''Present''"
  using formatDate_contract [of 2021 6 "''2021-xx''"] formatDate_contract [of 500 6 "''2021-''"]
    formatDate_contract [of 500 6 "''-06''"] formatDate_contract [of 500 6 "''2021''"]
  by (simp add: date_eval pad4_def js_Number_xx)

text \<open>
  Against claim C5 as the specification words it: the year 0050 is printed as 1950, not
  as the four digits \<^verbatim>\<open>0050\<close>, since the \<^verbatim>\<open>Date\<close> constructor reads a year from 0 to 99
  as 1900 to 1999; and the year 0500 is printed as \<^verbatim>\<open>500\<close>, without padding.
\<close>

theorem formatDate_short_year:
  "formatDate ''0050-06'' = ''Jun 1950'' \<and> formatDate ''0050-06'' \<noteq> ''Jun 0050''
   \<and> formatDate ''0500-06'' = ''Jun 500'' \<and> formatDate ''0500-06'' \<noteq> ''Jun 0500''"
proof -
  have p: "parse_nat 10 ''0050'' = Some 50" "parse_nat 10 ''06'' = Some 6"
    "parse_nat 10 ''0500'' = Some 500"
    by (simp_all add: parse_nat_def digit_base_def hex_digit_def)
  have a: "formatDate ''0050-06'' = ''Jun 1950''"
    using formatDate_numeric [OF p(1) p(2)] by (simp add: date_eval)
  have b: "formatDate ''0500-06'' = ''Jun 500''"
    using formatDate_numeric [OF p(3) p(2)] by (simp add: date_eval)
  show ?thesis by (simp add: a b)
qed

text \<open>
  Claim C10. A month outside 1..12 is not treated uniformly: a month of zero is falsy, so
  the input comes back unchanged (for any numeric year), while a month from 13 to 99
  carries into the year: the result is month \<open>(m - 1) mod 12\<close> of the year
  \<open>y + (m - 1) div 12\<close>, a later year. \<^verbatim>\<open>2021-00\<close> stays, \<^verbatim>\<open>2021-13\<close> becomes
  \<^verbatim>\<open>Jan 2022\<close>.
\<close>

theorem formatDate_month_out_of_range:
  "formatDate ''2021-00'' = ''2021-00'' \<and> formatDate ''2021-13'' = ''Jan 2022''
   \<and> (parse_nat 10 ys = Some y \<longrightarrow> formatDate (ys @ ''-00'') = ys @ ''-00'')
   \<and> (1000 \<le> y \<and> y \<le> 9999 \<and> 13 \<le> m \<and> m \<le> 99 \<longrightarrow>
        formatDate (string_of_nat y @ ''-'' @ pad2 m) =
          month_abbr ! ((m - 1) mod 12) @ '' '' @ string_of_nat (y + (m - 1) div 12)
        \<and> 1 \<le> (m - 1) div 12)"
proof (intro conjI impI)
  show "formatDate ''2021-00'' = ''2021-00''"
    using formatDate_zero_month [of "''2021''" 2021]
    by (simp add: parse_nat_def digit_base_def hex_digit_def)
  show "formatDate ''2021-13'' = ''Jan 2022''"
    using formatDate_valid [of 2021 13] by (simp add: date_eval)
next
  assume "parse_nat 10 ys = Some y"
  then show "formatDate (ys @ ''-00'') = ys @ ''-00''"
    by (rule formatDate_zero_month)
next
  assume a: "1000 \<le> y \<and> y \<le> 9999 \<and> 13 \<le> m \<and> m \<le> 99"
  then show "formatDate (string_of_nat y @ ''-'' @ pad2 m) =
          month_abbr ! ((m - 1) mod 12) @ '' '' @ string_of_nat (y + (m - 1) div 12)"
    using formatDate_valid [of y m] by simp
  from a show "1 \<le> (m - 1) div 12" by arith
qed

theorem formatDate_month_out_of_range_witness:
  "formatDate ''2021-00'' = ''2021-00'' \<and> formatDate ''2021-13'' = ''Jan 2022''
   \<and> formatDate ''1999-00'' = ''1999-00'' \<and> formatDate ''1999-25'' = ''Jan 2001''"
  using formatDate_month_out_of_range [of "''1999''" 1999 25]
  by (simp add: date_eval parse_nat_def digit_base_def hex_digit_def)

section \<open>The order of the experience entries\<close>

lemma sorted_wrt_nth:
  "sorted_wrt P xs \<Longrightarrow> i < j \<Longrightarrow> j < length xs \<Longrightarrow> P (xs ! i) (xs ! j)"
  by (simp add: sorted_wrt_iff_nth_less)

lemma priority_other:
  "\<not> inherited_category a \<Longrightarrow> map_of categoryOrder (template (fld a ''category'')) = None
     \<Longrightarrow> priority a = 99"
  by (simp add: priority_def order_of_def inherited_category_def)

text \<open>
  The order that the comparator gives when it is a comparator. Let \<^verbatim>\<open>localeCompare\<close> be
  consistent and put no string before the empty one, and let no entry's category name a
  member of \<^verbatim>\<open>Object.prototype\<close>. Then the sorted entries are a permutation of the
  entries; they are in order of priority ascending and, within a priority, of start date
  descending; entries with equal keys keep their relative order (stability, for every
  key \<open>k\<close>); after an entry with an empty start date only entries tied with the empty
  date follow in its group; the priorities are 1, 2, 3, 4, 4, 5 for the six categories
  of the table and 99 for any other such category; and entries of the categories
  Project, Work Experience, Volunteer come out as Work Experience, Project, Volunteer.
\<close>

theorem sortedExperience_ordered:
  assumes c: "consistent (localeCompare env)"
    and e: "empty_first (localeCompare env)"
    and n: "list_all (\<lambda>a. \<not> inherited_category a) (experience r)"
  shows "mset (sortedExperience env r) = mset (experience r)
    \<and> sorted_wrt (in_order env) (sortedExperience env r)
    \<and> filter (same_key env k) (sortedExperience env r) = filter (same_key env k) (experience r)
    \<and> (i < j \<and> j < length (sortedExperience env r)
         \<and> priority (sortedExperience env r ! i) = priority (sortedExperience env r ! j)
         \<and> startDate_of (sortedExperience env r ! i) = []
         \<longrightarrow> localeCompare env [] (startDate_of (sortedExperience env r ! j)) = 0)
    \<and> map (\<lambda>c. priority [(''category'', c)])
          [''Work Experience'', ''Contract'', ''Internship'', ''Project'', ''Projects'',
           ''Volunteer''] = [1, 2, 3, 4, 4, 5]
    \<and> (\<not> inherited_category a \<and> map_of categoryOrder (template (fld a ''category'')) = None
         \<longrightarrow> priority a = 99)
    \<and> (fld p ''category'' = Some ''Project'' \<and> fld w ''category'' = Some ''Work Experience''
         \<and> fld v ''category'' = Some ''Volunteer''
         \<longrightarrow> sortedExperience env (r\<lparr>experience := [p, w, v]\<rparr>) = [w, p, v])"
proof -
  let ?S = "sortedExperience env r"
  have S: "?S = js_sort (compareKeys env) (experience r)"
    using n by (rule sortedExperience_keys)
  have ck: "consistent (compareKeys env)"
    using c by (rule consistent_compareKeys)
  have 1: "mset ?S = mset (experience r)"
    by (simp add: sortedExperience_def mset_js_sort)
  have "sorted_wrt (\<lambda>a b. compareKeys env a b \<le> 0) ?S"
    unfolding S using ck by (rule sorted_js_sort)
  moreover have "in_order env = (\<lambda>a b. compareKeys env a b \<le> 0)"
    by (intro ext) (rule in_order_compareKeys)
  ultimately have 2: "sorted_wrt (in_order env) ?S"
    by simp
  have "filter (\<lambda>z. compareKeys env z k = 0) ?S = filter (\<lambda>z. compareKeys env z k = 0) (experience r)"
    unfolding S using ck by (rule js_sort_stable)
  moreover have "same_key env k = (\<lambda>z. compareKeys env z k = 0)"
    by (intro ext) (rule same_key_compareKeys)
  ultimately have 3: "filter (same_key env k) ?S = filter (same_key env k) (experience r)"
    by simp
  have 4: "localeCompare env [] (startDate_of (?S ! j)) = 0"
    if h: "i < j \<and> j < length ?S \<and> priority (?S ! i) = priority (?S ! j) \<and> startDate_of (?S ! i) = []"
  proof -
    from h have "in_order env (?S ! i) (?S ! j)"
      using sorted_wrt_nth [OF 2] by blast
    with h have le: "localeCompare env (startDate_of (?S ! j)) [] \<le> 0"
      by (simp add: in_order_def)
    have "\<not> localeCompare env [] (startDate_of (?S ! j)) < 0"
      using consistent_less [OF c, of "[]" "startDate_of (?S ! j)"] le by simp
    moreover have "localeCompare env [] (startDate_of (?S ! j)) \<le> 0"
      using e by (simp add: empty_first_def)
    ultimately show ?thesis by simp
  qed
  have 5: "map (\<lambda>c. priority [(''category'', c)])
          [''Work Experience'', ''Contract'', ''Internship'', ''Project'', ''Projects'',
           ''Volunteer''] = [1, 2, 3, 4, 4, 5]"
    by (simp add: priority_def order_of_def template_def fld_def categoryOrder_def)
  have 6: "priority a = 99"
    if "\<not> inherited_category a \<and> map_of categoryOrder (template (fld a ''category'')) = None"
    using that by (simp add: priority_other)
  have 7: "sortedExperience env (r\<lparr>experience := [p, w, v]\<rparr>) = [w, p, v]"
    if h: "fld p ''category'' = Some ''Project'' \<and> fld w ''category'' = Some ''Work Experience''
         \<and> fld v ''category'' = Some ''Volunteer''"
  proof -
    have o: "order_of p = Prio 4" "order_of w = Prio 1" "order_of v = Prio 5"
      using h by (simp_all add: order_of_def template_def categoryOrder_def)
    show ?thesis
      by (simp add: sortedExperience_def js_sort_def compareExperience_def o)
  qed
  from 1 2 3 4 5 6 7 show ?thesis by blast
qed


lemmas entry_defs = entry_A_def entry_B_def entry_C_def entry_D_def entry_E_def entry_F_def

lemma sortedExperience_example:
  "sortedExperience env0 unsorted_resume = [entry_C, entry_E, entry_B, entry_F, entry_A, entry_D]"
  by (simp add: sortedExperience_def unsorted_resume_def js_sort_def compareExperience_def
      order_of_def template_def fld_def or_else_def categoryOrder_def object_prototype_members_def
      env0_def entry_defs)

theorem sortedExperience_ordered_witness:
  "consistent (localeCompare env0) \<and> empty_first (localeCompare env0)
   \<and> list_all (\<lambda>a. \<not> inherited_category a) (experience unsorted_resume)
   \<and> mset (sortedExperience env0 unsorted_resume) = mset (experience unsorted_resume)
   \<and> sorted_wrt (in_order env0) [entry_C, entry_E, entry_B, entry_F, entry_A, entry_D]
   \<and> filter (same_key env0 entry_E) (experience unsorted_resume) = [entry_C, entry_E]
   \<and> localeCompare env0 [] (startDate_of entry_F) = 0
   \<and> priority [] = 99
   \<and> sortedExperience env0 (unsorted_resume\<lparr>experience := [entry_A, entry_B, entry_D]\<rparr>)
       = [entry_B, entry_A, entry_D]"
proof -
  have c: "consistent (localeCompare env0)"
    by (simp add: env0_def consistent_lex_compare)
  have e: "empty_first (localeCompare env0)"
    by (simp add: env0_def empty_first_lex_compare)
  have n: "list_all (\<lambda>a. \<not> inherited_category a) (experience unsorted_resume)"
    by (simp add: unsorted_resume_def inherited_category_def template_def fld_def
        object_prototype_members_def entry_defs)
  have p: "priority entry_B = priority entry_F" "startDate_of entry_B = []"
    by (simp_all add: priority_def order_of_def startDate_of_def template_def fld_def or_else_def
        categoryOrder_def entry_defs)
  have a: "\<not> inherited_category [] \<and> map_of categoryOrder (template (fld [] ''category'')) = None"
    by (simp add: inherited_category_def template_def fld_def categoryOrder_def
        object_prototype_members_def)
  have f: "fld entry_A ''category'' = Some ''Project''
           \<and> fld entry_B ''category'' = Some ''Work Experience''
           \<and> fld entry_D ''category'' = Some ''Volunteer''"
    by (simp add: fld_def entry_defs)
  have k: "filter (same_key env0 entry_E) (experience unsorted_resume) = [entry_C, entry_E]"
    by (simp add: same_key_def priority_def order_of_def startDate_of_def template_def fld_def
        or_else_def categoryOrder_def unsorted_resume_def env0_def entry_defs)
  show ?thesis
    using sortedExperience_ordered [OF c e n, of entry_E 2 3 "[]" entry_A entry_B entry_D]
      c e n p a f k
    by (simp add: sortedExperience_example)
qed

text \<open>
  Claim C6 says that an entry of any category outside the table has priority 99 and so
  comes after an entry of the category Work Experience, which has priority 1. The code
  breaks it for a category that names a member of \<^verbatim>\<open>Object.prototype\<close>:
  \<^verbatim>\<open>categoryOrder["constructor"]\<close> is the inherited function, which is truthy, so
  \<^verbatim>\<open>|| 99\<close> does not apply, the difference of the two orders is \<^verbatim>\<open>NaN\<close>, and
  \<^verbatim>\<open>sort\<close> takes the two entries for equal. With the entry of category
  \<^verbatim>\<open>constructor\<close> first in the resume, the sorted list keeps it first, before the
  Work Experience entry, in either order of the comparator's arguments.
\<close>

theorem sortedExperience_inherited_category:
  "experience inherited_resume = [entry_inherited, entry_work]
   \<and> fld entry_inherited ''category'' = Some ''constructor''
   \<and> map_of categoryOrder ''constructor'' = None
   \<and> priority entry_work = 1
   \<and> compareExperience env0 entry_inherited entry_work = 0
   \<and> compareExperience env0 entry_work entry_inherited = 0
   \<and> sortedExperience env0 inherited_resume = [entry_inherited, entry_work]
   \<and> sortedExperience env0 inherited_resume \<noteq> [entry_work, entry_inherited]"
  by (simp add: sortedExperience_def inherited_resume_def js_sort_def compareExperience_def
      priority_def order_of_def template_def fld_def categoryOrder_def
      object_prototype_members_def entry_inherited_def entry_work_def)

section \<open>Loading a document and saving it again\<close>

lemma mapKeyToProperty_plain:
  assumes "CHR ''-'' \<notin> set k"
  shows "mapKeyToProperty k = k"
proof -
  have "map_of overrides k = None"
    using assms by (auto simp: overrides_def)
  moreover have "split_on CHR ''-'' k = [k]"
    using assms by (rule split_on_no_sep)
  ultimately show ?thesis
    by (simp add: mapKeyToProperty_def)
qed

lemma obj_set_new: "k \<notin> fst ` set obj \<Longrightarrow> obj_set obj k v = obj @ [(k, v)]"
  by (induction obj) auto

lemma migrate_fold:
  assumes "distinct (map fst item)" "fst ` set item \<inter> fst ` set acc = {}"
    and "list_all (\<lambda>k. CHR ''-'' \<notin> set k) (map fst item)"
  shows "foldl (\<lambda>migrated (key, v). obj_set migrated (mapKeyToProperty key) v) acc item = acc @ item"
  using assms
proof (induction item arbitrary: acc)
  case Nil
  then show ?case by simp
next
  case (Cons kv item)
  obtain k v where kv: "kv = (k, v)" by (cases kv)
  have k: "mapKeyToProperty k = k" "k \<notin> fst ` set acc"
    using Cons.prems kv by (auto simp: mapKeyToProperty_plain)
  have "fst ` set item \<inter> fst ` set (acc @ [(k, v)]) = {}"
    using Cons.prems kv by auto
  then have "foldl (\<lambda>migrated (key, v). obj_set migrated (mapKeyToProperty key) v)
               (acc @ [(k, v)]) item = (acc @ [(k, v)]) @ item"
    using Cons.prems by (intro Cons.IH) auto
  then show ?case
    by (simp add: kv k obj_set_new)
qed

lemma schema_names_plain:
  "list_all (\<lambda>k. CHR ''-'' \<notin> set k) contact_fields"
  "list_all (\<lambda>k. CHR ''-'' \<notin> set k) education_fields"
  "list_all (\<lambda>k. CHR ''-'' \<notin> set k) experience_fields"
  by (simp_all add: contact_fields_def education_fields_def experience_fields_def)

lemma migrateItem_schema:
  assumes "list_all (\<lambda>k. CHR ''-'' \<notin> set k) allowed" "schema_item allowed item"
  shows "migrateItem item = item"
proof -
  have "list_all (\<lambda>k. CHR ''-'' \<notin> set k) (map fst item)"
    using assms by (auto simp: schema_item_def list_all_iff)
  then show ?thesis
    using assms(2) migrate_fold [of item "[]"]
    by (simp add: migrateItem_def schema_item_def)
qed

lemma migrate_schema_items:
  assumes "list_all (\<lambda>k. CHR ''-'' \<notin> set k) allowed" "schema_items allowed xs"
  shows "Some (map migrateItem (array_or_empty xs)) = xs"
proof (cases xs)
  case None
  with assms show ?thesis by (simp add: schema_items_def)
next
  case (Some ys)
  with assms have "list_all (schema_item allowed) ys"
    by (simp add: schema_items_def)
  then have "map migrateItem ys = ys"
    using migrateItem_schema [OF assms(1)] by (induction ys) auto
  with Some show ?thesis by (simp add: array_or_empty_def)
qed

lemma or_else_Some: "Some (or_else v []) = v" if "v \<noteq> None"
  using that by (cases v) (auto simp: or_else_def)

text \<open>
  Claim C4, as amended. For every document that conforms to the schema (all nine fields
  present, the records' keys distinct and among the schema's field names), loading it
  with \<^verbatim>\<open>safeLoadResume\<close> into any state and building the object that is serialized
  gives the document back in the fields name, email, phone, additionalText, contacts,
  education, experience and tags. The version is not read from the document: the
  serialized version is the one the state had before the load.
\<close>

theorem load_save_roundtrip:
  assumes "conforms d"
  shows "resumeToSave (safeLoadResume st d) = d\<lparr>json_version := version st\<rparr>"
proof -
  from assms have s: "json_name d \<noteq> None" "json_email d \<noteq> None" "json_phone d \<noteq> None"
    "json_additionalText d \<noteq> None" "json_tags d \<noteq> None"
    and c: "schema_items contact_fields (json_contacts d)"
    and e: "schema_items education_fields (json_education d)"
    and x: "schema_items experience_fields (json_experience d)"
    by (simp_all add: conforms_def)
  have t: "Some (array_or_empty (json_tags d)) = json_tags d"
    using s(5) by (cases "json_tags d") (auto simp: array_or_empty_def)
  show ?thesis
    by (simp add: resumeToSave_def safeLoadResume_def or_else_Some s t
        migrate_schema_items [OF schema_names_plain(1) c]
        migrate_schema_items [OF schema_names_plain(2) e]
        migrate_schema_items [OF schema_names_plain(3) x])
qed

lemma conforms_old_document: "conforms old_document"
  by (simp add: conforms_def old_document_def schema_items_def schema_item_def contact_fields_def
      education_fields_def experience_fields_def)

theorem load_save_roundtrip_witness:
  "conforms old_document
   \<and> resumeToSave (safeLoadResume initial_resume old_document)
       = old_document\<lparr>json_version := Some ''1.0.0''\<rparr>"
  using load_save_roundtrip [OF conforms_old_document, of initial_resume] conforms_old_document
  by (simp add: initial_resume_def APP_VERSION_def)

text \<open>
  Claim C4 as stated fails on the version: a conforming document of version 0.9.0,
  loaded into the initial state and saved, has version 1.0.0.
\<close>

theorem roundtrip_version_counterexample:
  "conforms old_document
   \<and> json_version old_document = Some ''0.9.0''
   \<and> json_version (resumeToSave (safeLoadResume initial_resume old_document)) = Some ''1.0.0''
   \<and> resumeToSave (safeLoadResume initial_resume old_document) \<noteq> old_document"
proof -
  have v: "json_version (resumeToSave (safeLoadResume initial_resume old_document)) = Some ''1.0.0''"
    by (simp add: resumeToSave_def safeLoadResume_def initial_resume_def APP_VERSION_def)
  have o: "json_version old_document = Some ''0.9.0''"
    by (simp add: old_document_def)
  have "resumeToSave (safeLoadResume initial_resume old_document) \<noteq> old_document"
  proof
    assume "resumeToSave (safeLoadResume initial_resume old_document) = old_document"
    then have "json_version (resumeToSave (safeLoadResume initial_resume old_document))
                 = json_version old_document"
      by simp
    with v o show False by simp
  qed
  with v o conforms_old_document show ?thesis by simp
qed

section \<open>Lemmas on the calls of the layout\<close>

lemma calls_emit: "calls (emit c st) = calls st @ [c]"
  by (simp add: emit_def)

lemma ypos_emit: "ypos (emit c st) = ypos st"
  by (simp add: emit_def)

lemma calls_advance: "calls (advance d st) = calls st"
  by (simp add: advance_def)

lemma ypos_advance: "ypos (advance d st) = ypos st + d"
  by (simp add: advance_def)

lemmas state_simps = calls_emit ypos_emit calls_advance ypos_advance

lemma right_texts_append: "right_texts (xs @ ys) = right_texts xs @ right_texts ys"
  by (induction xs rule: right_texts.induct) auto



lemma links_append: "links (xs @ ys) = links xs @ links ys"
  by (induction xs rule: links.induct) auto


section \<open>The right-aligned field of an education record\<close>


lemma days_from_civil_bounds:
  assumes "- 1 \<le> y" "y \<le> 9999" "1 \<le> d" "d \<le> 31"
  shows "- 865565 \<le> days_from_civil y m d" "days_from_civil y m d \<le> 2933403"
proof -
  define y' where "y' = (if m \<le> 2 then y - 1 else y)"
  define era where "era = y' div 400"
  define mp where "mp = (m + 9) mod 12"
  have y': "- 2 \<le> y'" "y' \<le> 9999"
    using assms by (simp_all add: y'_def)
  have "(- 2) div 400 \<le> y' div 400" "y' div 400 \<le> 9999 div (400 :: int)"
    using y' by (simp_all only: zdiv_mono1 zero_less_numeral)
  then have era: "- 1 \<le> era" "era \<le> 24"
    by (simp_all add: era_def)
  have yoe: "y' - era * 400 = y' mod 400"
    by (simp add: era_def minus_div_mult_eq_mod)
  have ym: "0 \<le> y' mod 400" "y' mod 400 \<le> 399"
    by simp_all
  have "0 \<le> y' mod 400 div 4" "y' mod 400 div 4 \<le> 399 div (4 :: int)"
    "0 \<le> y' mod 400 div 100" "y' mod 400 div 100 \<le> 399 div (100 :: int)"
    using ym by (simp_all only: zdiv_mono1 zero_less_numeral pos_imp_zdiv_nonneg_iff)
  then have q: "0 \<le> y' mod 400 div 4" "y' mod 400 div 4 \<le> 99"
    "0 \<le> y' mod 400 div 100" "y' mod 400 div 100 \<le> 3"
    by simp_all
  have mp: "0 \<le> mp" "mp \<le> 11"
    by (simp_all add: mp_def)
  then have "0 \<le> 153 * mp + 2" "153 * mp + 2 \<le> 1685" by simp_all
  then have "0 \<le> (153 * mp + 2) div 5" "(153 * mp + 2) div 5 \<le> 1685 div (5 :: int)"
    by (simp_all only: zdiv_mono1 zero_less_numeral pos_imp_zdiv_nonneg_iff)
  then have doy: "0 \<le> (153 * mp + 2) div 5" "(153 * mp + 2) div 5 \<le> 337"
    by simp_all
  have eq: "days_from_civil y m d =
              era * 146097 + (y' mod 400 * 365 + y' mod 400 div 4 - y' mod 400 div 100
                              + ((153 * mp + 2) div 5 + d - 1)) - 719468"
    by (simp only: days_from_civil_def Let_def y'_def [symmetric] era_def [symmetric]
        mp_def [symmetric] yoe)
  show "- 865565 \<le> days_from_civil y m d" "days_from_civil y m d \<le> 2933403"
    using era ym q doy assms(3,4) unfolding eq by linarith+
qed

lemma timeClip_first_of_month:
  assumes "y \<le> 9999"
  shows "timeClip (days_from_civil (int y) m 1 * msPerDay) = Some (days_from_civil (int y) m 1 * 86400000)"
proof -
  have "- 865565 \<le> days_from_civil (int y) m 1" "days_from_civil (int y) m 1 \<le> 2933403"
    using assms by (simp_all add: days_from_civil_bounds)
  then show ?thesis
    by (simp add: timeClip_def msPerDay_def)
qed

lemma pad4_digits: "list_all is_digit (pad4 y)"
  by (simp add: pad4_def is_digit_digit_char)

lemma iso_year_pad4:
  assumes "y \<le> 9999"
  shows "iso_year (pad4 y @ r) = Some (int y, r)"
proof -
  have d: "list_all is_digit (pad4 y)"
    by (rule pad4_digits)
  obtain c cs where p: "pad4 y = c # cs" and c: "is_digit c"
    using d by (simp add: pad4_def)
  have sign: "c \<noteq> CHR ''+''" "c \<noteq> CHR ''-''"
    using c by (rule digit_not_letter)+
  have l: "length (pad4 y) = 4"
    by (simp add: pad4_def)
  have t: "take 4 (pad4 y @ r) = pad4 y" "drop 4 (pad4 y @ r) = r"
    using l by simp_all
  have "iso_year (pad4 y @ r) =
          (if length (take 4 (pad4 y @ r)) = 4 \<and> list_all is_digit (take 4 (pad4 y @ r)) then
             map_option (\<lambda>n. (int n, drop 4 (pad4 y @ r))) (parse_nat 10 (take 4 (pad4 y @ r)))
           else None)"
    using sign by (simp add: iso_year_def p)
  then show ?thesis
    by (simp only: t l d parse_nat_pad4 [OF assms]) simp
qed

lemma eduDate_year_month:
  assumes "y \<le> 9999" "1 \<le> m" "m \<le> 12"
  shows "eduDate env (pad4 y @ ''-'' @ pad2 m) = Some (first_of_month_utc y m)"
proof -
  define e where "e = digit_char (m div 10)"
  define f where "f = digit_char (m mod 10)"
  have d: "is_digit e" "is_digit f"
    by (simp_all add: e_def f_def is_digit_digit_char)
  have r: "''-'' @ pad2 m = [CHR ''-'', e, f]"
    by (simp add: pad2_def e_def f_def)
  have m: "parse_nat 10 [e, f] = Some m"
    using assms parse_nat_pad2 [of m] by (simp add: pad2_def e_def f_def)
  have i: "iso_year (pad4 y @ [CHR ''-'', e, f]) = Some (int y, [CHR ''-'', e, f])"
    using assms(1) by (rule iso_year_pad4)
  have "eduDate env (pad4 y @ [CHR ''-'', e, f]) = Some (first_of_month_utc y m)"
    using assms(2,3)
    by (simp add: eduDate_def i d m timeClip_first_of_month [OF assms(1)] first_of_month_utc_def)
  then show ?thesis
    by (simp only: r)
qed





lemma days_from_civil_examples:
  "days_from_civil 2025 1 1 = 20089" "days_from_civil 2022 1 1 = 18993"
  "days_from_civil 2024 2 29 = 19782" "days_from_civil 2021 2 29 = 18687"
  "days_from_civil 2021 3 1 = 18687"
  by (simp_all add: days_from_civil_def)

lemma civil_from_days_examples:
  "civil_from_days 20089 = (2025, 1, 1)" "civil_from_days 19782 = (2024, 2, 29)"
  unfolding civil_from_days_def Let_def by simp_all

lemma clock_env0:
  "localTime env0 t = t" "utc env0 t = t" "now env0 = 20089 * 86400000"
  "now2 env0 = 20089 * 86400000"
  by (simp_all add: localTime_def utc_def env0_def first_of_month_utc_def
      days_from_civil_examples)



lemma threeYearsAgo_env0: "threeYearsAgo env0 = Some 1640995200000"
proof -
  have "days_from_civil 2022 1 1 = 18993"
    by (rule days_from_civil_examples)
  then show ?thesis
    by (simp add: threeYearsAgo_def setFullYear_def getFullYear_def clock_env0 msPerDay_def
        civil_from_days_examples timeClip_def)
qed

lemma eduDate_2019_05: "eduDate env ''2019-05'' = Some 1556668800000"
  using eduDate_year_month [of 2019 5 env]
  by (simp add: pad4_def pad2_def digit_char_def first_of_month_utc_def days_from_civil_def)



lemma graduated_2019: "graduated env0 ''2019-05''"
  by (simp add: graduated_def eduDate_2019_05 threeYearsAgo_env0)




section \<open>The bullets of an experience entry\<close>





























section \<open>Where the code departs from the specification\<close>

lemma page_calls_append: "page_calls (xs @ ys) = page_calls xs @ page_calls ys"
  by (induction xs rule: page_calls.induct) auto

lemma renderEducation_certificate:
  "renderEducation env certificate st =
     (if 280 < ypos st + sectionLineHeight
      then \<lparr>ypos = 20, calls = calls st @ [Text (Str (bullet @ '' A'')) 25 (ypos st) AlignLeft, AddPage]\<rparr>
      else \<lparr>ypos = ypos st + sectionLineHeight,
            calls = calls st @ [Text (Str (bullet @ '' A'')) 25 (ypos st) AlignLeft]\<rparr>)"
  by (simp add: renderEducation_def certificate_def fld_def template_def Let_def emit_def
      advance_def margin_def)

lemma js_sort_replicate: "cmp x x \<le> 0 \<Longrightarrow> js_sort cmp (replicate n x) = replicate n x"
proof (induction n)
  case 0
  then show ?case by (simp add: js_sort_def)
next
  case (Suc n)
  then have "js_sort cmp (replicate (Suc n) x) = insert_sorted cmp x (replicate n x)"
    by (simp add: js_sort_def)
  also have "\<dots> = x # replicate n x"
    using Suc.prems by (cases n) simp_all
  finally show ?case by simp
qed

lemma sortedEducation_many: "sortedEducation env0 many_certificates = replicate 67 certificate"
proof -
  have "compareEducation env0 certificate certificate \<le> 0"
    by (simp add: compareEducation_def env0_def certificate_def fld_def or_else_def)
  then show ?thesis
    by (simp add: sortedEducation_def many_certificates_def js_sort_replicate)
qed

lemma slh: "sectionLineHeight = 3704169 / 1000000"
  by (simp add: sectionLineHeight_def getLineHeightMM_def sectionFontSize_def sectionSpacing_def)

lemma certificates_fit:
  "ypos st + of_nat n * sectionLineHeight \<le> 280 \<Longrightarrow>
     ypos (foldl (\<lambda>s edu. renderEducation env edu s) st (replicate n certificate)) =
       ypos st + of_nat n * sectionLineHeight
     \<and> page_calls (calls (foldl (\<lambda>s edu. renderEducation env edu s) st (replicate n certificate))) =
         page_calls (calls st)"
proof (induction n arbitrary: st)
  case 0
  then show ?case by simp
next
  case (Suc n)
  have pos: "0 \<le> of_nat n * sectionLineHeight"
    by (simp add: slh)
  from Suc.prems have fit: "\<not> 280 < ypos st + sectionLineHeight"
    using pos by (simp add: algebra_simps)
  let ?st = "renderEducation env certificate st"
  have y: "ypos ?st = ypos st + sectionLineHeight"
    and c: "page_calls (calls ?st) = page_calls (calls st)"
    using fit by (simp_all add: renderEducation_certificate page_calls_append)
  have "ypos ?st + of_nat n * sectionLineHeight \<le> 280"
    using Suc.prems by (simp add: y algebra_simps)
  from Suc.IH [OF this] show ?case
    by (simp add: y c algebra_simps)
qed

lemma many_certificates_before_education:
  "drawAdditionalText env0 many_certificates
     (drawContacts env0 many_certificates (drawName env0 many_certificates \<lparr>ypos = 20, calls = []\<rparr>))
   = \<lparr>ypos = 128398629 / 5000000,
      calls = [SetFont ''helvetica'' ''normal'', SetFontSize 14, SetFont ''helvetica'' ''bold'',
               Text (Str []) 105 20 AlignCenter, SetFontSize 12,
               SetFont ''helvetica'' ''normal'']\<rparr>"
  by (simp add: drawAdditionalText_def drawContacts_def drawName_def contactParts_def Let_def
      emit_def advance_def many_certificates_def initial_resume_def or_else_def js_trim_Nil
      env0_def getLineHeightMM_def)

lemma many_certificates_calls:
  "page_calls (calls (generatePdf env0 many_certificates)) =
     [SetFontSize 14, SetFontSize 12, SetFontSize 10.5, AddPage]"
proof -
  let ?R = "\<lambda>s edu. renderEducation env0 edu s"
  define st7 :: pdf where
    "st7 = \<lparr>ypos = 128398629 / 5000000 + 5 + sectionLineHeight,
            calls = [SetFont ''helvetica'' ''normal'', SetFontSize 14, SetFont ''helvetica'' ''bold'',
               Text (Str []) 105 20 AlignCenter, SetFontSize 12,
               SetFont ''helvetica'' ''normal'', SetFontSize sectionFontSize, SetTextColor 0 0 0,
               SetFont ''helvetica'' ''bold'',
               Text (Str ''Education and Certification'') margin (128398629 / 5000000 + 5) AlignLeft,
               SetFont ''helvetica'' ''normal'']\<rparr>"
  define st66 where "st66 = foldl ?R st7 (replicate 66 certificate)"
  have e: "drawEducation env0 many_certificates
             (drawAdditionalText env0 many_certificates
               (drawContacts env0 many_certificates
                 (drawName env0 many_certificates \<lparr>ypos = 20, calls = []\<rparr>)))
           = foldl ?R st7 (replicate 67 certificate)"
    by (simp add: many_certificates_before_education drawEducation_def sortedEducation_many
        Let_def emit_def advance_def st7_def)
  have "ypos st7 + of_nat 66 * sectionLineHeight \<le> 280"
    by (simp add: st7_def slh)
  from certificates_fit [OF this, of env0]
  have y66: "ypos st66 = ypos st7 + 66 * sectionLineHeight"
    and c66: "page_calls (calls st66) = page_calls (calls st7)"
    by (simp_all add: st66_def)
  have "replicate (66 + 1) certificate = replicate 66 certificate @ replicate 1 certificate"
    by (rule replicate_add)
  then have "replicate 67 certificate = replicate 66 certificate @ [certificate]"
    by simp
  then have f: "foldl ?R st7 (replicate 67 certificate) = renderEducation env0 certificate st66"
    by (simp add: st66_def)
  have over: "280 < ypos st66 + sectionLineHeight"
    by (simp add: y66 st7_def slh)
  have l: "renderEducation env0 certificate st66 =
             \<lparr>ypos = 20, calls = calls st66 @ [Text (Str (bullet @ '' A'')) 25 (ypos st66) AlignLeft, AddPage]\<rparr>"
    using over by (simp add: renderEducation_certificate)
  have x: "sortedExperience env0 many_certificates = []"
    by (simp add: sortedExperience_def many_certificates_def initial_resume_def js_sort_def)
  have g: "generatePdf env0 many_certificates =
             drawExperience env0 many_certificates (renderEducation env0 certificate st66)"
    by (simp only: generatePdf_def e f)
  have d: "page_calls (calls (drawExperience env0 many_certificates st)) = page_calls (calls st)"
    for st
    by (simp add: drawExperience_def x Let_def emit_def advance_def page_calls_append)
  have "page_calls (calls (generatePdf env0 many_certificates)) =
          page_calls (calls (renderEducation env0 certificate st66))"
    by (simp only: g d)
  also have "\<dots> = page_calls (calls st66) @ [AddPage]"
    by (simp add: l page_calls_append)
  also have "\<dots> = page_calls (calls st7) @ [AddPage]"
    by (simp only: c66)
  also have "\<dots> = [SetFontSize 14, SetFontSize 12, SetFontSize 10.5, AddPage]"
    by (simp add: st7_def sectionFontSize_def)
  finally show ?thesis .
qed

lemma formatDate_Present: "formatDate ''Present'' = ''Present''"
  by (simp add: formatDate_def)

lemma experienceRightText_dash:
  "experienceRightText entry =
     formatDate (or_else (fld entry ''startDate'') []) @ '' - ''
     @ formatDate (or_else (fld entry ''endDate'') ''Present'')"
  by (simp add: experienceRightText_def Let_def formatDate_not_empty)

lemma right_texts_heading:
  "right_texts (calls (experienceHeading env entry st)) =
     right_texts (calls st) @ [experienceRightText entry]"
  by (simp add: experienceHeading_def Let_def state_simps right_texts_append)

lemma right_texts_drawBullet:
  "right_texts (calls (drawBullet env b st)) = right_texts (calls st)"
  by (simp add: drawBullet_def Let_def state_simps right_texts_append)

lemma right_texts_bullets:
  "right_texts (calls (foldl (\<lambda>s b. drawBullet env b s) st bs)) = right_texts (calls st)"
  by (induction bs arbitrary: st) (simp_all add: right_texts_drawBullet)

lemma right_texts_entryGap: "right_texts (calls (entryGap st)) = right_texts (calls st)"
  by (simp add: entryGap_def Let_def state_simps right_texts_append)

lemma right_texts_renderExperience:
  "right_texts (calls (renderExperience env entry st)) =
     right_texts (calls st) @ [experienceRightText entry]"
  by (simp add: renderExperience_def right_texts_entryGap right_texts_bullets right_texts_heading)

text \<open>
  Claim C1 does not hold of the code. \<^verbatim>\<open>formatDate\<close> of the empty string is
  \<^verbatim>\<open>Present\<close>, never the empty string, so the test \<^verbatim>\<open>formattedStart ? ... : formattedEnd\<close> of line 403
  always takes its first branch: an entry with an empty start date and the end date
  \<^verbatim>\<open>2021-06\<close> shows \<^verbatim>\<open>Present - Jun 2021\<close>, and every entry shows a dash.
\<close>

theorem empty_start_date_shows_Present:
  "formatDate [] = ''Present''
   \<and> experienceRightText undated_start = ''Present - Jun 2021''
   \<and> right_texts (calls (renderExperience env undated_start st)) =
       right_texts (calls st) @ [''Present - Jun 2021'']
   \<and> experienceRightText entry =
       formatDate (or_else (fld entry ''startDate'') []) @ '' - ''
       @ formatDate (or_else (fld entry ''endDate'') ''Present'')"
proof -
  have "experienceRightText undated_start = ''Present - Jun 2021''"
    by (simp add: experienceRightText_dash undated_start_def fld_def or_else_def
        formatDate_empty formatDate_2021_06)
  then show ?thesis
    by (simp add: formatDate_empty right_texts_renderExperience experienceRightText_dash)
qed

lemma ypos_heading:
  "ypos (experienceHeading env entry st) =
     ypos st + sectionLineHeight + (if or_else (fld entry ''url'') [] \<noteq> [] then 1 else 0)"
  by (simp add: experienceHeading_def Let_def state_simps)

lemma links_heading:
  "links (calls (experienceHeading env entry st)) =
     links (calls st) @
       (if or_else (fld entry ''title'') [] \<noteq> [] \<and> or_else (fld entry ''url'') [] \<noteq> []
        then [or_else (fld entry ''url'') []] else [])"
  by (simp add: experienceHeading_def Let_def state_simps links_append)

text \<open>
  Claim C3 does not hold of the code. The extra millimetre of line 409 follows the url
  alone, the link and its underline need a title as well: an entry with a url and no
  title advances by the line height plus one and draws no link.
\<close>

theorem heading_advance_follows_url:
  "ypos (experienceHeading env untitled_link st) = ypos st + sectionLineHeight + 1
   \<and> links (calls (experienceHeading env untitled_link st)) = links (calls st)
   \<and> ypos (experienceHeading env entry st) =
       ypos st + sectionLineHeight + (if or_else (fld entry ''url'') [] \<noteq> [] then 1 else 0)
   \<and> links (calls (experienceHeading env entry st)) =
       links (calls st) @
         (if or_else (fld entry ''title'') [] \<noteq> [] \<and> or_else (fld entry ''url'') [] \<noteq> []
          then [or_else (fld entry ''url'') []] else [])"
proof -
  have "or_else (fld untitled_link ''url'') [] \<noteq> []" "or_else (fld untitled_link ''title'') [] = []"
    by (simp_all add: untitled_link_def fld_def or_else_def)
  then show ?thesis
    by (simp add: ypos_heading links_heading)
qed

lemma page_calls_renderEducation:
  "page_calls (calls (renderEducation env edu st)) =
     page_calls (calls st) @ (if 280 < ypos st + sectionLineHeight then [AddPage] else [])"
  by (simp add: renderEducation_def Let_def state_simps page_calls_append)

lemma ypos_renderEducation:
  "ypos (renderEducation env edu st) =
     (if 280 < ypos st + sectionLineHeight then 20 else ypos st + sectionLineHeight)"
  by (simp add: renderEducation_def Let_def state_simps)

lemma page_calls_drawBullet:
  "page_calls (calls (drawBullet env b st)) =
     page_calls (calls st) @
       (if 280 < ypos st
                 + of_nat (length (splitTextToSize env (calls st) (bullet @ '' '' @ b)
                                     (contentWidth env - 5))) * sectionLineHeight * 1.2
        then [AddPage, SetFontSize sectionFontSize] else [])"
  by (simp add: drawBullet_def Let_def state_simps page_calls_append)

lemma page_calls_entryGap:
  "page_calls (calls (entryGap st)) =
     page_calls (calls st) @
       (if 280 < ypos st + sectionLineHeight / 1.5 then [AddPage, SetFontSize sectionFontSize]
        else [])"
  by (simp add: entryGap_def Let_def state_simps page_calls_append)

text \<open>
  Claim C2 does not hold of the code. The page break after an education record (lines
  329-332) calls \<^verbatim>\<open>addPage\<close> and resets the cursor to 20, and does not set the font
  size; the breaks after a bullet and after an entry's gap (lines 432-436, 440-444) call
  \<^verbatim>\<open>addPage\<close> and then \<^verbatim>\<open>setFontSize\<close>. In the resume of 67 certificates the last call
  of either kind is the \<^verbatim>\<open>addPage\<close>.
\<close>

theorem education_page_break_sets_no_font:
  "page_calls (calls (renderEducation env edu st)) =
     page_calls (calls st) @ (if 280 < ypos st + sectionLineHeight then [AddPage] else [])
   \<and> ypos (renderEducation env edu st) =
       (if 280 < ypos st + sectionLineHeight then 20 else ypos st + sectionLineHeight)
   \<and> page_calls (calls (drawBullet env b st)) =
       page_calls (calls st) @
         (if 280 < ypos st
                   + of_nat (length (splitTextToSize env (calls st) (bullet @ '' '' @ b)
                                       (contentWidth env - 5))) * sectionLineHeight * 1.2
          then [AddPage, SetFontSize sectionFontSize] else [])
   \<and> page_calls (calls (entryGap st)) =
       page_calls (calls st) @
         (if 280 < ypos st + sectionLineHeight / 1.5 then [AddPage, SetFontSize sectionFontSize]
          else [])
   \<and> page_calls (calls (generatePdf env0 many_certificates)) =
       [SetFontSize 14, SetFontSize 12, SetFontSize 10.5, AddPage]"
  by (simp only: page_calls_renderEducation ypos_renderEducation page_calls_drawBullet
      page_calls_entryGap many_certificates_calls simp_thms)

text \<open>
  Claim C9 does not hold of the code in one part. Every path of the layout returns (the
  model has no raising operation, and the sparsest resume is laid out as below), but a
  missing field is not always drawn as the empty string: the template literals of lines
  297 and 309 print a missing name, degree type or category of an education record as
  the word \<^verbatim>\<open>undefined\<close>, where the experience entries and the name use \<^verbatim>\<open>|| ''\<close>.
\<close>

theorem missing_education_fields_print_undefined:
  "calls (renderEducation env0 bare_degree st0) =
     [Text (Str (bullet @ '' B.S. in undefined | undefined'')) 25 40 AlignLeft]
   \<and> calls (renderEducation env0 [(''degreeType'', ''Certificate'')] st0) =
       [Text (Str (bullet @ '' undefined'')) 25 40 AlignLeft]
   \<and> calls (experienceHeading env0 [] st0) =
       [SetFont ''helvetica'' ''italic'', Text (Str ''Present - Present'') 190 40 AlignRight,
        SetFont ''helvetica'' ''normal'']
   \<and> calls (generatePdf env0 empty_resume) =
       [SetFont ''helvetica'' ''normal'', SetFontSize 14, SetFont ''helvetica'' ''bold'',
        Text (Str []) 105 20 AlignCenter, SetFontSize 12, SetFont ''helvetica'' ''normal'',
        SetFontSize 10.5, SetTextColor 0 0 0, SetFont ''helvetica'' ''bold'',
        Text (Str ''Education and Certification'') 20 (153398629 / 5000000) AlignLeft,
        SetFont ''helvetica'' ''normal'', SetFont ''helvetica'' ''bold'',
        Text (Str ''Work History/Projects/Internships'') 20 (98459737 / 2500000) AlignLeft]"
proof -
  have 1: "calls (renderEducation env0 bare_degree st0) =
     [Text (Str (bullet @ '' B.S. in undefined | undefined'')) 25 40 AlignLeft]"
    by (simp add: renderEducation_def educationLeftText_def educationRightText_def bare_degree_def
        fld_def template_def truthy_def Let_def emit_def advance_def st0_def margin_def slh)
  have 2: "calls (renderEducation env0 [(''degreeType'', ''Certificate'')] st0) =
       [Text (Str (bullet @ '' undefined'')) 25 40 AlignLeft]"
    by (simp add: renderEducation_def fld_def template_def Let_def emit_def advance_def st0_def
        margin_def slh)
  have 3: "calls (experienceHeading env0 [] st0) =
       [SetFont ''helvetica'' ''italic'', Text (Str ''Present - Present'') 190 40 AlignRight,
        SetFont ''helvetica'' ''normal'']"
    by (simp add: experienceHeading_def experienceRightText_dash formatDate_empty
        formatDate_Present fld_def or_else_def Let_def emit_def advance_def st0_def margin_def
        env0_def)
  have 4: "calls (generatePdf env0 empty_resume) =
       [SetFont ''helvetica'' ''normal'', SetFontSize 14, SetFont ''helvetica'' ''bold'',
        Text (Str []) 105 20 AlignCenter, SetFontSize 12, SetFont ''helvetica'' ''normal'',
        SetFontSize 10.5, SetTextColor 0 0 0, SetFont ''helvetica'' ''bold'',
        Text (Str ''Education and Certification'') 20 (153398629 / 5000000) AlignLeft,
        SetFont ''helvetica'' ''normal'', SetFont ''helvetica'' ''bold'',
        Text (Str ''Work History/Projects/Internships'') 20 (98459737 / 2500000) AlignLeft]"
    by (simp add: generatePdf_def drawExperience_def drawEducation_def drawAdditionalText_def
        drawContacts_def drawName_def contactParts_def sortedEducation_def sortedExperience_def
        js_sort_def empty_resume_def or_else_def Let_def emit_def advance_def env0_def
        getLineHeightMM_def slh margin_def sectionFontSize_def)
  from 1 2 3 4 show ?thesis by simp
qed

end
